theory Spec2Isabelle
  imports Main "HOL-Library.Char_ord" "HOL-Library.List_Lexorder" "HOL-Library.Sublist"
begin

section \<open>Data model\<close>

text \<open>
  The Go sources embedded here are \<^verbatim>\<open>git/diff.go\<close> (\<open>Diff\<close>), \<^verbatim>\<open>git/checkout.go\<close>
  (\<open>Checkout\<close>, \<open>CheckoutCommit\<close>, \<open>CheckoutFiles\<close>) and \<^verbatim>\<open>cmd/log.go\<close>
  (\<open>printCommit\<close>, \<open>walkParents\<close>, \<open>Log\<close>). The engine they call (object store,
  reference store, index, read-tree, diff engine, patch apply) is not part of the sources;
  each such function is either modelled from the specification (its comment says so) or,
  where the specification leaves it open, taken as a parameter (record \<open>collab\<close>).

  Fields of the option structs carry a prefix naming their struct (\<open>co_\<close> for
  \<open>CheckoutOptions\<close>, \<open>rt_\<close> for \<open>ReadTreeOptions\<close>, ...), because several structs
  share field names (\<open>Force\<close>, \<open>Merge\<close>, \<open>Patch\<close>).
\<close>

type_synonym Sha1 = string
type_synonym CommitID = Sha1
type_synonym TreeID = Sha1
type_synonym File = string
type_synonym RefSpec = string
type_synonym Branch = string

text \<open>The error kinds of the specification (section 7), the two sentinel errors the
  sources compare against (\<open>DetachedHead\<close>, \<open>userAborted\<close>) and \<open>fmt.Errorf\<close>.\<close>

datatype error =
    NotFound
  | Corrupt
  | AmbiguousRef
  | BadRevision
  | RefLoop
  | RefConflict
  | WorkdirDirty File
  | MergeConflict
  | UntrackedOverwrite
  | PatchApplyFailed File nat
  | LockTimeout
  | IoError
  | DetachedHead
  | userAborted
  | Errorf string

text \<open>Tree entry modes (specification, section 3).\<close>

datatype EntryMode = ModeTree | ModeBlob | ModeExec | ModeSymlink | ModeCommit

text \<open>
  Modelled from the spec: objects, references and working-tree files (section 3); their
  types are not in the sources. A tree is kept flattened: the sequence of (path, mode,
  digest) tuples the tree walker yields for it. Blob digests are idealised: the digest of
  a blob is modelled by the blob's contents, so the hash is injective and every blob an
  entry names can be read.
\<close>

type_synonym Entry = "EntryMode \<times> Sha1"
type_synonym TreeEntries = "(File \<times> Entry) list"

record CommitObject =
  c_tree :: TreeID
  c_parents :: "CommitID list"
  c_author :: string
  c_date :: string
  c_message :: string

datatype GitObject =
    BlobObject string
  | TreeObject TreeEntries
  | CommitObj CommitObject
  | TagObject Sha1

datatype RefValue = Direct Sha1 | Symbolic RefSpec

record ReflogLine =
  rl_ref :: RefSpec
  rl_old :: "Sha1 option"
  rl_new :: "Sha1 option"
  rl_message :: string

record WorkFile =
  w_mode :: EntryMode
  w_content :: string

text \<open>
  Modelled from the spec: the repository a \<open>*Client\<close> points at (section 6, on-disk
  layout); the type \<open>Client\<close> is not in the sources. It holds the loose ref files (\<open>HEAD\<close>
  among them), the packed-refs table, the object store (a finite table from digest to
  object), the index file, the working tree and the reflog.
\<close>

record Client =
  refs :: "RefSpec \<rightharpoonup> RefValue"
  packed_refs :: "RefSpec \<rightharpoonup> Sha1"
  objects :: "(Sha1 \<times> GitObject) list"
  index :: TreeEntries
  workdir :: "File \<rightharpoonup> WorkFile"
  reflog :: "ReflogLine list"

text \<open>Modelled from the spec: the implementations of the Go interfaces \<open>Commitish\<close> and
  \<open>Treeish\<close> (section 9, polymorphism over commit-ish and tree-ish), whose declarations are
  not in the sources: \<open>CheckoutCommit\<close> tests a \<open>Commitish\<close> for being a \<open>Branch\<close>, passes a
  \<open>RefSpec\<close> where a \<open>Commitish\<close> is expected and a \<open>CommitID\<close> where a \<open>Treeish\<close> is.\<close>

datatype Commitish =
    Commitish_Branch Branch
  | Commitish_RefSpec RefSpec
  | Commitish_CommitID CommitID

datatype Treeish =
    Treeish_Commitish Commitish
  | Treeish_TreeID TreeID

section \<open>Reference store and object store\<close>

text \<open>Modelled from the spec: \<open>read(name)\<close> of the reference store (section 4.3), which is
  not in the sources. Loose refs override packed refs.\<close>

definition read_ref :: "Client \<Rightarrow> RefSpec \<Rightarrow> RefValue option" where
  "read_ref c name =
     (case refs c name of
        Some v \<Rightarrow> Some v
      | None \<Rightarrow> map_option Direct (packed_refs c name))"

text \<open>Modelled from the spec: \<open>resolve(name)\<close> (section 4.3), not in the sources.
  Symbolic refs are followed transitively, at most five levels; beyond that \<open>RefLoop\<close>.\<close>

fun resolve_n :: "nat \<Rightarrow> Client \<Rightarrow> RefSpec \<Rightarrow> error + Sha1" where
  "resolve_n k c name =
     (case read_ref c name of
        None \<Rightarrow> Inl NotFound
      | Some (Direct d) \<Rightarrow> Inr d
      | Some (Symbolic t) \<Rightarrow>
          (case k of 0 \<Rightarrow> Inl RefLoop | Suc k' \<Rightarrow> resolve_n k' c t))"

declare resolve_n.simps [simp del]

definition resolve :: "Client \<Rightarrow> RefSpec \<Rightarrow> error + Sha1" where
  "resolve c name = resolve_n 5 c name"

text \<open>Modelled from the spec: \<open>RefSpec.File(c).Exists()\<close>, not in the sources. A loose ref
  lives in a file of its own under the git directory (section 4.3, Layout); the test
  looks at that file only.\<close>

definition RefSpec_File_Exists :: "Client \<Rightarrow> RefSpec \<Rightarrow> bool" where
  "RefSpec_File_Exists c r = (refs c r \<noteq> None)"

text \<open>Modelled from the spec: \<open>Commitish.CommitID(c)\<close>, not in the sources. A digest is
  its own commit id; a branch or ref name is resolved by the reference store.\<close>

fun CommitID_of :: "Client \<Rightarrow> Commitish \<Rightarrow> error + CommitID" where
  "CommitID_of c (Commitish_CommitID d) = Inr d"
| "CommitID_of c (Commitish_Branch b) = resolve c b"
| "CommitID_of c (Commitish_RefSpec r) = resolve c r"

text \<open>Modelled from the spec: \<open>Client.GetHeadCommit()\<close>, not in the sources: the commit
  \<open>HEAD\<close> resolves to.\<close>

definition GetHeadCommit :: "Client \<Rightarrow> error + CommitID" where
  "GetHeadCommit c = resolve c ''HEAD''"

text \<open>Modelled from the spec: \<open>read(digest)\<close> of the object store (section 4.1), for commit
  and tree objects; not in the sources.\<close>

definition read_commit :: "Client \<Rightarrow> CommitID \<Rightarrow> error + CommitObject" where
  "read_commit c cmt =
     (case map_of (objects c) cmt of
        Some (CommitObj x) \<Rightarrow> Inr x
      | _ \<Rightarrow> Inl NotFound)"

definition read_tree_object :: "Client \<Rightarrow> TreeID \<Rightarrow> error + TreeEntries" where
  "read_tree_object c t =
     (case map_of (objects c) t of
        Some (TreeObject es) \<Rightarrow> Inr es
      | _ \<Rightarrow> Inl NotFound)"

text \<open>Modelled from the spec: the tree of a commit (section 3): the tree object its
  \<open>tree\<close> header names.\<close>

definition commit_tree :: "Client \<Rightarrow> CommitID \<Rightarrow> error + TreeEntries" where
  "commit_tree c cmt =
     (case read_commit c cmt of
        Inl e \<Rightarrow> Inl e
      | Inr x \<Rightarrow> read_tree_object c (c_tree x))"

text \<open>Modelled from the spec: resolution of a \<open>Treeish\<close> to its tree, not in the sources.\<close>

fun treeish_entries :: "Client \<Rightarrow> Treeish \<Rightarrow> error + TreeEntries" where
  "treeish_entries c (Treeish_TreeID t) = read_tree_object c t"
| "treeish_entries c (Treeish_Commitish x) =
     (case CommitID_of c x of
        Inl e \<Rightarrow> Inl e
      | Inr cmt \<Rightarrow> commit_tree c cmt)"

text \<open>Modelled from the spec: \<open>read()\<close> of the index (section 4.4), not in the sources. An
  absent index file reads as the empty index; a corrupt file is outside the model, so the
  error of the Go pair is always nil.\<close>

definition ReadIndex :: "Client \<Rightarrow> TreeEntries \<times> error option" where
  "ReadIndex c = (index c, None)"

section \<open>Tree walker\<close>

text \<open>Modelled from the spec: the walk of section 4.6, not in the sources, for the two
  trees a checkout involves (O, the original, and A, the target): the trees are walked in
  sorted order and yield tuples of a path and the optional entry of each tree.\<close>

fun walk_trees :: "TreeEntries \<Rightarrow> TreeEntries \<Rightarrow> (File \<times> Entry option \<times> Entry option) list" where
  "walk_trees [] as = map (\<lambda>(q, a). (q, None, Some a)) as"
| "walk_trees (b # bs) [] = map (\<lambda>(p, b). (p, Some b, None)) (b # bs)"
| "walk_trees ((p, b) # bs) ((q, a) # as) =
     (if p < q then (p, Some b, None) # walk_trees bs ((q, a) # as)
      else if q < p then (q, None, Some a) # walk_trees ((p, b) # bs) as
      else (p, Some b, Some a) # walk_trees bs as)"

section \<open>Diff engine\<close>

datatype DiffStatus = Added | Deleted | Modified | Renamed | TypeChanged | Copied

record HashDiff =
  hd_path :: File
  hd_mode_before :: "EntryMode option"
  hd_mode_after :: "EntryMode option"
  hd_digest_before :: "Sha1 option"
  hd_digest_after :: "Sha1 option"
  hd_status :: DiffStatus

record DiffCommonOptions =
  dc_Patch :: bool
  dc_Raw :: bool
  dc_Recurse :: bool
  dc_NumContextLines :: nat

text \<open>\<open>DiffOptions\<close> of \<^verbatim>\<open>git/diff.go\<close>; \<open>DiffIndexOptions\<close> and \<open>DiffFilesOptions\<close> as the
  composite literals of \<open>Diff\<close> build them.\<close>

record DiffOptions =
  do_DiffCommonOptions :: DiffCommonOptions
  do_Staged :: bool

record DiffIndexOptions =
  di_DiffCommonOptions :: DiffCommonOptions
  di_Cached :: bool

record DiffFilesOptions =
  df_DiffCommonOptions :: DiffCommonOptions

text \<open>Modelled from the spec: the diff engine of section 4.7, not in the sources. One
  \<open>HashDiff\<close> per walked path whose two sides differ. Rename and copy detection is left
  out: the specification does not fix the similarity measure, and the detection only
  re-labels pairs of an unmatched add and an unmatched delete. A regular and an
  executable file are of one type; a change between types is \<open>TypeChanged\<close>.\<close>

fun file_type :: "EntryMode \<Rightarrow> EntryMode" where
  "file_type ModeExec = ModeBlob"
| "file_type m = m"

fun diff_tuple :: "File \<times> Entry option \<times> Entry option \<Rightarrow> HashDiff list" where
  "diff_tuple (p, None, None) = []"
| "diff_tuple (p, Some (m, d), None) =
     [\<lparr>hd_path = p, hd_mode_before = Some m, hd_mode_after = None,
       hd_digest_before = Some d, hd_digest_after = None, hd_status = Deleted\<rparr>]"
| "diff_tuple (p, None, Some (m, d)) =
     [\<lparr>hd_path = p, hd_mode_before = None, hd_mode_after = Some m,
       hd_digest_before = None, hd_digest_after = Some d, hd_status = Added\<rparr>]"
| "diff_tuple (p, Some (m, d), Some (m', d')) =
     (if (m, d) = (m', d') then []
      else [\<lparr>hd_path = p, hd_mode_before = Some m, hd_mode_after = Some m',
              hd_digest_before = Some d, hd_digest_after = Some d',
              hd_status = (if file_type m = file_type m' then Modified else TypeChanged)\<rparr>])"

definition diff_engine :: "TreeEntries \<Rightarrow> TreeEntries \<Rightarrow> HashDiff list" where
  "diff_engine old new = concat (map diff_tuple (walk_trees old new))"

text \<open>Modelled from the spec: the path arguments of \<open>diff [<paths>...]\<close> (section 6), not in
  the sources. No path selects everything; a path selects itself and what lies below it.\<close>

definition path_selected :: "File list \<Rightarrow> File \<Rightarrow> bool" where
  "path_selected paths p =
     (paths = [] \<or> (\<exists>f \<in> set paths. f = p \<or> prefix (f @ ''/'') p))"

definition select_paths :: "File list \<Rightarrow> TreeEntries \<Rightarrow> TreeEntries" where
  "select_paths paths es = filter (\<lambda>(p, e). path_selected paths p) es"

text \<open>Modelled from the spec: the working tree as an input of the diff engine
  (section 4.7): for each index path, the file now in the working tree, if there is one.\<close>

definition worktree_entries :: "Client \<Rightarrow> TreeEntries \<Rightarrow> TreeEntries" where
  "worktree_entries c idx =
     List.map_filter
       (\<lambda>(p, e). map_option (\<lambda>w. (p, (w_mode w, w_content w))) (workdir c p)) idx"

text \<open>Modelled from the spec: \<open>DiffIndex\<close>, not in the sources: the diff from a tree to the
  index (\<open>Cached\<close>) or from a tree to the working tree files the index knows (section 4.7).\<close>

definition DiffIndex ::
  "Client \<Rightarrow> DiffIndexOptions \<Rightarrow> TreeEntries \<Rightarrow> CommitID \<Rightarrow> File list \<Rightarrow> error + HashDiff list" where
  "DiffIndex c opt idx tree paths =
     (case commit_tree c tree of
        Inl e \<Rightarrow> Inl e
      | Inr t \<Rightarrow>
          Inr (diff_engine (select_paths paths t)
                 (select_paths paths (if di_Cached opt then idx else worktree_entries c idx))))"

text \<open>Modelled from the spec: \<open>DiffFiles\<close>, not in the sources: the diff from the index to
  the working tree (section 4.7, "unstaged").\<close>

definition DiffFiles :: "Client \<Rightarrow> DiffFilesOptions \<Rightarrow> File list \<Rightarrow> error + HashDiff list" where
  "DiffFiles c opt paths =
     Inr (diff_engine (select_paths paths (index c))
            (select_paths paths (worktree_entries c (index c))))"

text \<open>\<open>Diff\<close> of \<^verbatim>\<open>git/diff.go\<close>. The error of \<open>ReadIndex\<close> is discarded, as in the source.\<close>

definition Diff :: "Client \<Rightarrow> DiffOptions \<Rightarrow> File list \<Rightarrow> error + HashDiff list" where
  "Diff c opt paths =
     (if do_Staged opt then
        (case GetHeadCommit c of
           Inl err \<Rightarrow> Inl err
         | Inr head \<Rightarrow>
             (let index = fst (ReadIndex c)
              in DiffIndex c
                   \<lparr>di_DiffCommonOptions = do_DiffCommonOptions opt, di_Cached = True\<rparr>
                   index head paths))
      else
        DiffFiles c \<lparr>df_DiffCommonOptions = do_DiffCommonOptions opt\<rparr> paths)"

section \<open>Read-tree\<close>

text \<open>\<open>ReadTreeOptions\<close>, with the fields the sources set.\<close>

record ReadTreeOptions =
  rt_Update :: bool
  rt_Merge :: bool
  rt_Reset :: bool

text \<open>Modelled from the spec: the workdir mutations of section 4.6 (write-file with its
  mode, delete), the file an entry is checked out as, and the entry a file would be
  stored as.\<close>

datatype mutation = WriteFile File WorkFile | DeleteFile File

definition wfile_of :: "Entry \<Rightarrow> WorkFile" where
  "wfile_of e = \<lparr>w_mode = fst e, w_content = snd e\<rparr>"

definition entry_of :: "WorkFile \<Rightarrow> Entry" where
  "entry_of w = (w_mode w, w_content w)"

fun apply_mutation :: "mutation \<Rightarrow> (File \<rightharpoonup> WorkFile) \<Rightarrow> (File \<rightharpoonup> WorkFile)" where
  "apply_mutation (WriteFile p w) wd = wd(p \<mapsto> w)"
| "apply_mutation (DeleteFile p) wd = wd(p := None)"

text \<open>Modelled from the spec: the original tree O of a checkout is the tree of the
  current \<open>HEAD\<close> (section 4.6); an unborn \<open>HEAD\<close> has the empty tree.\<close>

definition head_tree :: "Client \<Rightarrow> error + TreeEntries" where
  "head_tree c =
     (case GetHeadCommit c of
        Inl e \<Rightarrow> Inr []
      | Inr h \<Rightarrow> commit_tree c h)"

text \<open>Modelled from the spec: a working-tree file that differs from both O and A
  (section 4.6, workdir-update mode).\<close>

fun workdir_dirty :: "Client \<Rightarrow> File \<times> Entry option \<times> Entry option \<Rightarrow> bool" where
  "workdir_dirty c (p, orig, target) =
     (case workdir c p of
        None \<Rightarrow> False
      | Some w \<Rightarrow> Some (entry_of w) \<noteq> orig \<and> Some (entry_of w) \<noteq> target)"

text \<open>Modelled from the spec: the workdir mutations of one walked tuple. The walker takes
  the target's entry: where O and A agree nothing changes, unless \<open>reset\<close> overwrites
  unconditionally.\<close>

fun mutations_of :: "bool \<Rightarrow> File \<times> Entry option \<times> Entry option \<Rightarrow> mutation list" where
  "mutations_of reset (p, orig, target) =
     (if \<not> reset \<and> orig = target then []
      else (case target of
              None \<Rightarrow> [DeleteFile p]
            | Some e \<Rightarrow> [WriteFile p (wfile_of e)]))"

text \<open>Modelled from the spec: the walker changes the working tree at the tuples where O
  and A differ, and the fresh index holds the target's entries (section 4.6).\<close>

fun overwrites :: "File \<times> Entry option \<times> Entry option \<Rightarrow> bool" where
  "overwrites (p, orig, target) = (orig \<noteq> target)"

definition new_index :: "(File \<times> Entry option \<times> Entry option) list \<Rightarrow> TreeEntries" where
  "new_index tuples = List.map_filter (\<lambda>(p, orig, target). map_option (Pair p) target) tuples"

text \<open>Modelled from the spec: \<open>ReadTree\<close> with one target tree (section 4.6), not in the
  sources. The result is the Go pair (index, error) and the repository afterwards. With
  \<open>update\<close> and \<open>merge\<close> the walker refuses to overwrite a dirty working-tree file and
  names the first such path; \<open>reset\<close> suppresses the check. The check precedes every
  mutation; the index is written last.\<close>

definition ReadTree ::
  "Client \<Rightarrow> ReadTreeOptions \<Rightarrow> Treeish \<Rightarrow> (TreeEntries \<times> error option) \<times> Client" where
  "ReadTree c opt tree =
     (case treeish_entries c tree of
        Inl e \<Rightarrow> (([], Some e), c)
      | Inr target \<Rightarrow>
          (case head_tree c of
             Inl e \<Rightarrow> (([], Some e), c)
           | Inr orig \<Rightarrow>
               (let tuples = walk_trees orig target;
                    checked = rt_Update opt \<and> rt_Merge opt \<and> \<not> rt_Reset opt
                in case filter (\<lambda>t. checked \<and> overwrites t \<and> workdir_dirty c t) tuples of
                     (p, x) # rest \<Rightarrow> (([], Some (WorkdirDirty p)), c)
                   | [] \<Rightarrow>
                       (let idx = new_index tuples;
                            muts = (if rt_Update opt
                                    then concat (map (mutations_of (rt_Reset opt)) tuples)
                                    else [])
                        in ((idx, None),
                            c\<lparr>workdir := fold apply_mutation muts (workdir c),
                              index := idx\<rparr>)))))"

section \<open>Reference updates\<close>

datatype SymbolicRefOptions = SymbolicRefOptions

record UpdateRefOptions =
  ur_NoDeref :: bool
  ur_OldValue :: "Commitish option"

text \<open>Modelled from the spec: the digest a name resolves to, if it does (the old and new
  values of a reflog line, section 4.3).\<close>

definition resolved :: "Client \<Rightarrow> RefSpec \<Rightarrow> Sha1 option" where
  "resolved c name = (case resolve c name of Inl e \<Rightarrow> None | Inr d \<Rightarrow> Some d)"

text \<open>Modelled from the spec: \<open>SymbolicRefGet\<close>, not in the sources: \<open>read(name)\<close> of
  section 4.3 as the Go pair. The target of a symbolic ref is returned; a direct ref gives
  the sentinel \<open>DetachedHead\<close>, which \<open>CheckoutCommit\<close> tests for.\<close>

definition SymbolicRefGet :: "Client \<Rightarrow> SymbolicRefOptions \<Rightarrow> RefSpec \<Rightarrow> RefSpec \<times> error option" where
  "SymbolicRefGet c opts name =
     (case read_ref c name of
        None \<Rightarrow> ([], Some NotFound)
      | Some (Symbolic t) \<Rightarrow> (t, None)
      | Some (Direct d) \<Rightarrow> ([], Some DetachedHead))"

text \<open>Modelled from the spec: \<open>SymbolicRefUpdate\<close>, not in the sources:
  \<open>set_symbolic(name, target, message)\<close> of section 4.3, with its reflog line.\<close>

definition SymbolicRefUpdate ::
  "Client \<Rightarrow> SymbolicRefOptions \<Rightarrow> RefSpec \<Rightarrow> RefSpec \<Rightarrow> string \<Rightarrow> error option \<times> Client" where
  "SymbolicRefUpdate c opts name target reason =
     (let c' = c\<lparr>refs := (refs c)(name \<mapsto> Symbolic target)\<rparr>
      in (None,
          c'\<lparr>reflog := reflog c @
               [\<lparr>rl_ref = name, rl_old = resolved c name, rl_new = resolved c' name,
                 rl_message = reason\<rparr>]\<rparr>))"

text \<open>Modelled from the spec: \<open>UpdateRef\<close>, not in the sources:
  \<open>update(name, new_digest, expected_old, message, no_deref)\<close> of section 4.3. The expected
  old value is the digest \<open>OldValue\<close> resolves to, if it resolves; a mismatch with the
  actual old value is \<open>RefConflict\<close>. Without \<open>no_deref\<close> a symbolic name is updated at its
  target.\<close>

definition UpdateRef ::
  "Client \<Rightarrow> UpdateRefOptions \<Rightarrow> RefSpec \<Rightarrow> CommitID \<Rightarrow> string \<Rightarrow> error option \<times> Client" where
  "UpdateRef c opts name cmt reason =
     (let target = (if ur_NoDeref opts then name
                    else (case read_ref c name of Some (Symbolic t) \<Rightarrow> t | _ \<Rightarrow> name));
          actual = resolved c target;
          expected = (case ur_OldValue opts of
                        None \<Rightarrow> None
                      | Some v \<Rightarrow> (case CommitID_of c v of Inl e \<Rightarrow> None | Inr d \<Rightarrow> Some d))
      in if expected \<noteq> None \<and> expected \<noteq> actual then (Some RefConflict, c)
         else (None,
               c\<lparr>refs := (refs c)(target \<mapsto> Direct cmt),
                 reflog := reflog c @
                   [\<lparr>rl_ref = target, rl_old = actual, rl_new = Some cmt,
                     rl_message = reason\<rparr>]\<rparr>))"

text \<open>Modelled from the spec: \<open>Branch.BranchName()\<close>, not in the sources: the name of a
  branch is its ref name without \<open>refs/heads/\<close> (section 3, Reference).\<close>

definition BranchName :: "Branch \<Rightarrow> string" where
  "BranchName b = (if prefix ''refs/heads/'' b then drop 11 b else b)"

section \<open>Checkout of a commit\<close>

text \<open>\<open>CheckoutOptions\<close> of \<^verbatim>\<open>git/checkout.go\<close>.\<close>

record CheckoutOptions =
  co_Quiet :: bool
  co_Progress :: bool
  co_Force :: bool
  co_Stage :: nat
  co_Branch :: string
  co_ForceBranch :: bool
  co_OrphanBranch :: bool
  co_Track :: string
  co_CreateReflog :: bool
  co_Detach :: bool
  co_IgnoreSkipWorktreeBits :: bool
  co_Merge :: bool
  co_ConflictStyle :: string
  co_Patch :: bool
  co_IgnoreOtherWorktrees :: bool

text \<open>The local \<open>readtreeopts\<close> of \<open>CheckoutCommit\<close>.\<close>

definition readtreeopts :: "CheckoutOptions \<Rightarrow> ReadTreeOptions" where
  "readtreeopts opts =
     (let readtreeopts = \<lparr>rt_Update = True, rt_Merge = True, rt_Reset = False\<rparr>
      in if co_Force opts then readtreeopts\<lparr>rt_Merge := False, rt_Reset := True\<rparr>
         else readtreeopts)"

text \<open>The local \<open>origB\<close> of \<open>CheckoutCommit\<close>: the name the reflog message moves from.\<close>

definition origB :: "Client \<Rightarrow> RefSpec \<Rightarrow> string" where
  "origB c head =
     (let branch = BranchName head
      in if branch \<noteq> [] then branch
         else (case CommitID_of c (Commitish_RefSpec head) of
                 Inr h \<Rightarrow> h
               | Inl err \<Rightarrow> BranchName head))"

text \<open>The type assertion \<open>commit.(Branch)\<close>.\<close>

fun as_Branch :: "Commitish \<Rightarrow> Branch option" where
  "as_Branch (Commitish_Branch b) = Some b"
| "as_Branch x = None"

text \<open>\<open>CheckoutCommit\<close> of \<^verbatim>\<open>git/checkout.go\<close>. The result is the returned error and the
  repository afterwards. \<open>newRefspec\<close> is used for the existence test only, as in the
  source.\<close>

definition CheckoutCommit :: "Client \<Rightarrow> CheckoutOptions \<Rightarrow> Commitish \<Rightarrow> error option \<times> Client" where
  "CheckoutCommit c opts commit =
     (if co_Branch opts \<noteq> [] \<and>
         RefSpec_File_Exists c (''refs/heads/'' @ co_Branch opts) \<and> \<not> co_ForceBranch opts
      then (Some (Errorf (''Branch '' @ co_Branch opts @ '' already exists.'')), c)
      else
        (case SymbolicRefGet c SymbolicRefOptions ''HEAD'' of
           (head, err) \<Rightarrow>
             if err \<noteq> None \<and> err \<noteq> Some DetachedHead then (err, c)
             else
               (case CommitID_of c commit of
                  Inl err \<Rightarrow> (Some err, c)
                | Inr cid \<Rightarrow>
                    (case ReadTree c (readtreeopts opts) (Treeish_Commitish (Commitish_CommitID cid)) of
                       ((i, Some err), c1) \<Rightarrow> (Some err, c1)
                     | ((i, None), c1) \<Rightarrow>
                         (case (as_Branch commit, co_Detach opts) of
                            (Some b, False) \<Rightarrow>
                              SymbolicRefUpdate c1 SymbolicRefOptions ''HEAD'' b
                                (''checkout: moving from '' @ origB c1 head @ '' to '' @
                                 BranchName b @ '' (dgit)'')
                          | _ \<Rightarrow>
                              UpdateRef c1
                                \<lparr>ur_NoDeref = True, ur_OldValue = Some (Commitish_RefSpec head)\<rparr>
                                ''HEAD'' cid
                                (''checkout: moving from '' @ origB c1 head @ '' to '' @
                                 cid @ '' (dgit)''))))))"

section \<open>Patch apply\<close>

text \<open>Go's \<open>strings.Split\<close> and \<open>strings.Join\<close> on a one-byte separator.\<close>

fun Split :: "string \<Rightarrow> char \<Rightarrow> string list" where
  "Split [] sep = [[]]"
| "Split (x # xs) sep =
     (if x = sep then [] # Split xs sep
      else (case Split xs sep of
              [] \<Rightarrow> [[x]]
            | l # ls \<Rightarrow> (x # l) # ls))"

fun Join :: "string list \<Rightarrow> char \<Rightarrow> string" where
  "Join [] sep = []"
| "Join [l] sep = l"
| "Join (l # ls) sep = l @ sep # Join ls sep"

text \<open>Go's \<open>strings.TrimSpace\<close>: leading and trailing white space is removed, white space
  being what \<open>unicode.IsSpace\<close> accepts (U+0009 to U+000D, U+0020, U+0085, U+00A0, U+1680,
  U+2000 to U+200A, U+2028, U+2029, U+202F, U+205F, U+3000). A Go string is its bytes, so
  each of these characters is given by its UTF-8 encoding. None of the encodings begins
  or ends another, and the bytes before one cannot extend it, so matching the bytes finds
  the characters that decoding from either end finds.\<close>

definition unicode_spaces :: "string list" where
  "unicode_spaces =
     [[CHR 0x09], [CHR 0x0A], [CHR 0x0B], [CHR 0x0C], [CHR 0x0D], [CHR 0x20],
      [CHR 0xC2, CHR 0x85], [CHR 0xC2, CHR 0xA0],
      [CHR 0xE1, CHR 0x9A, CHR 0x80],
      [CHR 0xE2, CHR 0x80, CHR 0x80], [CHR 0xE2, CHR 0x80, CHR 0x81],
      [CHR 0xE2, CHR 0x80, CHR 0x82], [CHR 0xE2, CHR 0x80, CHR 0x83],
      [CHR 0xE2, CHR 0x80, CHR 0x84], [CHR 0xE2, CHR 0x80, CHR 0x85],
      [CHR 0xE2, CHR 0x80, CHR 0x86], [CHR 0xE2, CHR 0x80, CHR 0x87],
      [CHR 0xE2, CHR 0x80, CHR 0x88], [CHR 0xE2, CHR 0x80, CHR 0x89],
      [CHR 0xE2, CHR 0x80, CHR 0x8A],
      [CHR 0xE2, CHR 0x80, CHR 0xA8], [CHR 0xE2, CHR 0x80, CHR 0xA9],
      [CHR 0xE2, CHR 0x80, CHR 0xAF],
      [CHR 0xE2, CHR 0x81, CHR 0x9F],
      [CHR 0xE3, CHR 0x80, CHR 0x80]]"

function trim_prefix :: "string list \<Rightarrow> string \<Rightarrow> string" where
  "trim_prefix ws s =
     (case find (\<lambda>w. w \<noteq> [] \<and> prefix w s) ws of
        None \<Rightarrow> s
      | Some w \<Rightarrow> trim_prefix ws (drop (length w) s))"
  by pat_completeness auto
termination
proof (relation "measure (\<lambda>(ws, s). length s)")
  show "wf (measure (\<lambda>(ws, s). length s))"
    by simp
next
  fix ws :: "string list" and s w :: string
  assume "find (\<lambda>w. w \<noteq> [] \<and> prefix w s) ws = Some w"
  then have "w \<noteq> []" and "prefix w s"
    by (auto simp: find_Some_iff)
  then have "0 < length w" and "length w \<le> length s"
    by (auto simp: prefix_length_le)
  then have "length s - length w < length s"
    by arith
  then show "((ws, drop (length w) s), (ws, s)) \<in> measure (\<lambda>(ws, s). length s)"
    by simp
qed

declare trim_prefix.simps [simp del]

definition TrimSpace :: "string \<Rightarrow> string" where
  "TrimSpace s =
     rev (trim_prefix (map rev unicode_spaces) (rev (trim_prefix unicode_spaces s)))"

text \<open>Modelled from the spec: a hunk of a unified diff (section 4.8), not in the sources:
  the file it belongs to, the first line of its range on either side (counted from 1) and
  the lines of either side.\<close>

record patchHunk =
  ph_file :: File
  ph_old_start :: nat
  ph_new_start :: nat
  ph_old :: "string list"
  ph_new :: "string list"

type_synonym FilePatch = "File \<times> patchHunk list"

text \<open>Modelled from the spec: what \<open>recombinePatch\<close>, not in the sources, writes: the
  surviving hunks under the header of their file, their old-side ranges recomputed for
  the hunks that were dropped (section 4.8). \<open>recombine\<close> is the parsed contents written.\<close>

fun group_hunks :: "patchHunk list \<Rightarrow> FilePatch list" where
  "group_hunks [] = []"
| "group_hunks (h # hs) =
     (case group_hunks hs of
        [] \<Rightarrow> [(ph_file h, [h])]
      | (f, ghs) # rest \<Rightarrow>
          if f = ph_file h then (f, h # ghs) # rest
          else (ph_file h, [h]) # (f, ghs) # rest)"

fun recompute_ranges :: "int \<Rightarrow> patchHunk list \<Rightarrow> patchHunk list" where
  "recompute_ranges delta [] = []"
| "recompute_ranges delta (h # hs) =
     h\<lparr>ph_old_start := nat (int (ph_new_start h) - delta)\<rparr> #
     recompute_ranges (delta + int (length (ph_new h)) - int (length (ph_old h))) hs"

definition recombine :: "patchHunk list \<Rightarrow> FilePatch list" where
  "recombine hunks = map (\<lambda>(f, hs). (f, recompute_ranges 0 hs)) (group_hunks hunks)"

text \<open>Modelled from the spec: the temporary files of patch buffers (section 9, temp-file
  for patch buffers), which lie outside the repository: the files there are, each with
  the parsed patch it holds, and the operations done on them, in order. The operations
  are named after the calls of \<open>Checkout\<close>: \<open>ioutil.TempFile\<close> creates an empty file,
  \<open>recombinePatch\<close> writes the recombined hunks to it, \<open>os.Remove\<close> removes it.\<close>

datatype temp_op =
    Op_TempFile File
  | Op_recombinePatch File "FilePatch list"
  | Op_Remove File

record TempDir =
  td_files :: "File \<rightharpoonup> FilePatch list"
  td_ops :: "temp_op list"

definition create_temp :: "TempDir \<Rightarrow> File \<Rightarrow> TempDir" where
  "create_temp tmp name =
     tmp\<lparr>td_files := (td_files tmp)(name \<mapsto> []), td_ops := td_ops tmp @ [Op_TempFile name]\<rparr>"

definition recombinePatch :: "TempDir \<Rightarrow> File \<Rightarrow> patchHunk list \<Rightarrow> TempDir" where
  "recombinePatch tmp patch hunks =
     tmp\<lparr>td_files := (td_files tmp)(patch \<mapsto> recombine hunks),
         td_ops := td_ops tmp @ [Op_recombinePatch patch (recombine hunks)]\<rparr>"

definition os_Remove :: "TempDir \<Rightarrow> File \<Rightarrow> TempDir" where
  "os_Remove tmp name =
     tmp\<lparr>td_files := (td_files tmp)(name := None), td_ops := td_ops tmp @ [Op_Remove name]\<rparr>"

text \<open>\<open>ApplyOptions\<close>, with the field the sources set.\<close>

record ApplyOptions =
  ap_Reverse :: bool

text \<open>Modelled from the spec: application of one hunk with no fuzz (section 4.8): the
  lines at the hunk's range must be the hunk's source side exactly.\<close>

definition apply_hunk :: "bool \<Rightarrow> string list \<Rightarrow> patchHunk \<Rightarrow> string list option" where
  "apply_hunk reverse ls h =
     (let start = (if reverse then ph_new_start h else ph_old_start h);
          src = (if reverse then ph_new h else ph_old h);
          dst = (if reverse then ph_old h else ph_new h)
      in if 1 \<le> start \<and> take (length src) (drop (start - 1) ls) = src
         then Some (take (start - 1) ls @ dst @ drop (start - 1 + length src) ls)
         else None)"

text \<open>Modelled from the spec: application of the hunks of one file, and of the file
  patches of one patch, to the working tree (section 4.8). The hunks of a file are
  applied from the last to the first, so that the ranges of the hunks not yet applied
  stay valid; the argument of \<open>apply_hunks\<close> is the list of (index, hunk) in that order. A
  hunk that does not apply is \<open>PatchApplyFailed\<close> with the file and the hunk index.\<close>

fun apply_hunks :: "bool \<Rightarrow> File \<Rightarrow> string list \<Rightarrow> (nat \<times> patchHunk) list \<Rightarrow> error + string list" where
  "apply_hunks reverse f ls [] = Inr ls"
| "apply_hunks reverse f ls ((i, h) # hs) =
     (case apply_hunk reverse ls h of
        None \<Rightarrow> Inl (PatchApplyFailed f i)
      | Some ls' \<Rightarrow> apply_hunks reverse f ls' hs)"

fun apply_file_patches :: "Client \<Rightarrow> bool \<Rightarrow> FilePatch list \<Rightarrow> error option \<times> Client" where
  "apply_file_patches c reverse [] = (None, c)"
| "apply_file_patches c reverse ((f, hs) # fps) =
     (case workdir c f of
        None \<Rightarrow> (Some NotFound, c)
      | Some w \<Rightarrow>
          (case apply_hunks reverse f (Split (w_content w) (CHR 0x0A)) (rev (enumerate 0 hs)) of
             Inl e \<Rightarrow> (Some e, c)
           | Inr ls \<Rightarrow>
               apply_file_patches
                 (c\<lparr>workdir := (workdir c)(f \<mapsto> w\<lparr>w_content := Join ls (CHR 0x0A)\<rparr>)\<rparr>)
                 reverse fps))"

text \<open>Modelled from the spec: \<open>Apply\<close>, not in the sources (section 4.8): the patch files
  named are read and applied to the working tree one after the other. A patch file that
  is not there is \<open>NotFound\<close>.\<close>

fun Apply :: "Client \<Rightarrow> TempDir \<Rightarrow> ApplyOptions \<Rightarrow> File list \<Rightarrow> error option \<times> Client" where
  "Apply c tmp opts [] = (None, c)"
| "Apply c tmp opts (patch # patches) =
     (case td_files tmp patch of
        None \<Rightarrow> (Some NotFound, c)
      | Some fps \<Rightarrow>
          (case apply_file_patches c (ap_Reverse opts) fps of
             (Some e, c1) \<Rightarrow> (Some e, c1)
           | (None, c1) \<Rightarrow> Apply c1 tmp opts patches))"

section \<open>Collaborators\<close>

datatype RevParseOptions = RevParseOptions

datatype out_line =
    OutCommit CommitID
  | OutMerge "CommitID list"
  | OutAuthorDate string string
  | OutLog CommitID
  | OutMessageLine string
  | OutBlank
  | OutDiagnostic string
  | OutUsage

datatype ParseResult = ParseExit nat "out_line list" | Parsed "string list"

text \<open>\<open>CheckoutIndexOptions\<close>, with the fields the sources set.\<close>

record CheckoutIndexOptions =
  ci_Force :: bool
  ci_UpdateStat :: bool

text \<open>
  Functions the sources call whose behaviour neither the sources nor the specification
  fix: the flag parser of the command layer (it either exits, or leaves the non-flag
  arguments \<open>flags.Args()\<close>), the revision parser, the unified-diff generator and splitter,
  the interactive hunk filter, the name \<open>ioutil.TempFile\<close> gives the file it creates (or
  its error), and \<open>CheckoutIndexUncommited\<close>, the checkout of files from an index, of which
  the specification says nothing.
\<close>

record collab =
  flags_Parse :: "string list \<Rightarrow> ParseResult"
  RevParseCommitish :: "Client \<Rightarrow> RevParseOptions \<Rightarrow> string \<Rightarrow> error + Commitish"
  RevParseTreeish :: "Client \<Rightarrow> RevParseOptions \<Rightarrow> string \<Rightarrow> error + Treeish"
  GeneratePatch :: "Client \<Rightarrow> DiffCommonOptions \<Rightarrow> HashDiff list \<Rightarrow> error + string"
  splitPatch :: "string \<Rightarrow> bool \<Rightarrow> error + patchHunk list"
  filterHunks :: "string \<Rightarrow> patchHunk list \<Rightarrow> error + patchHunk list"
  TempFile :: "TempDir \<Rightarrow> string \<Rightarrow> string \<Rightarrow> error + File"
  CheckoutIndexUncommited ::
    "Client \<Rightarrow> TreeEntries \<Rightarrow> CheckoutIndexOptions \<Rightarrow> File list \<Rightarrow> error option \<times> Client"

section \<open>Checkout of files\<close>

text \<open>The local \<open>updateAll\<close> of \<open>CheckoutFiles\<close>.\<close>

definition updateAll :: "File list \<Rightarrow> bool" where
  "updateAll files = (length files = 0)"

text \<open>\<open>CheckoutFiles\<close> of \<^verbatim>\<open>git/checkout.go\<close>.\<close>

definition CheckoutFiles ::
  "collab \<Rightarrow> Client \<Rightarrow> CheckoutOptions \<Rightarrow> Treeish \<Rightarrow> File list \<Rightarrow> error option \<times> Client" where
  "CheckoutFiles X c opts tree files =
     (case ReadTree c
             \<lparr>rt_Update = updateAll files, rt_Merge = updateAll files, rt_Reset = False\<rparr> tree of
        ((i, Some err), c1) \<Rightarrow> (Some err, c1)
      | ((i, None), c1) \<Rightarrow>
          CheckoutIndexUncommited X c1 i \<lparr>ci_Force = True, ci_UpdateStat = True\<rparr> files)"

section \<open>Checkout\<close>

text \<open>The zero values \<open>DiffFilesOptions{}\<close> and \<open>DiffCommonOptions{Patch: true}\<close>.\<close>

definition DiffCommonOptions_zero :: DiffCommonOptions where
  "DiffCommonOptions_zero =
     \<lparr>dc_Patch = False, dc_Raw = False, dc_Recurse = False, dc_NumContextLines = 0\<rparr>"

text \<open>\<open>Checkout\<close> of \<^verbatim>\<open>git/checkout.go\<close>. The result is the returned error, the repository
  afterwards and the temporary files afterwards. The deferred \<open>os.Remove\<close> runs when
  \<open>Checkout\<close> returns, after \<open>Apply\<close>.\<close>

definition Checkout ::
  "collab \<Rightarrow> Client \<Rightarrow> TempDir \<Rightarrow> CheckoutOptions \<Rightarrow> string \<Rightarrow> File list \<Rightarrow>
     error option \<times> Client \<times> TempDir" where
  "Checkout X c tmp opts thing0 files =
     (let thing = (if thing0 = [] then ''HEAD'' else thing0)
      in if co_Patch opts then
           (case DiffFiles c \<lparr>df_DiffCommonOptions = DiffCommonOptions_zero\<rparr> files of
              Inl err \<Rightarrow> (Some err, c, tmp)
            | Inr diffs \<Rightarrow>
                (case GeneratePatch X c (DiffCommonOptions_zero\<lparr>dc_Patch := True\<rparr>) diffs of
                   Inl err \<Rightarrow> (Some err, c, tmp)
                 | Inr patchbuf \<Rightarrow>
                     (case splitPatch X patchbuf False of
                        Inl err \<Rightarrow> (Some err, c, tmp)
                      | Inr hunks0 \<Rightarrow>
                          (case filterHunks X ''discard this hunk from the work tree'' hunks0 of
                             Inl err \<Rightarrow>
                               if err = userAborted then (None, c, tmp) else (Some err, c, tmp)
                           | Inr hunks \<Rightarrow>
                               (case TempFile X tmp [] ''checkoutpatch'' of
                                  Inl err \<Rightarrow> (Some err, c, tmp)
                                | Inr patch \<Rightarrow>
                                    (let tmp1 = create_temp tmp patch;
                                         tmp2 = recombinePatch tmp1 patch hunks
                                     in case Apply c tmp2 \<lparr>ap_Reverse = True\<rparr> [patch] of
                                          (err, c1) \<Rightarrow> (err, c1, os_Remove tmp2 patch)))))))
         else if length files = 0 then
           (case RevParseCommitish X c RevParseOptions thing of
              Inl err \<Rightarrow> (Some err, c, tmp)
            | Inr cmt \<Rightarrow>
                (case CheckoutCommit c opts cmt of (err, c1) \<Rightarrow> (err, c1, tmp)))
         else
           (case RevParseTreeish X c RevParseOptions thing of
              Inl err \<Rightarrow> (Some err, c, tmp)
            | Inr b \<Rightarrow>
                (case CheckoutFiles X c opts b files of (err, c1) \<Rightarrow> (err, c1, tmp))))"

section \<open>Log\<close>

text \<open>Modelled from the spec: \<open>GetAuthor\<close>, \<open>GetDate\<close>, \<open>GetCommitMessage\<close> and \<open>Parents\<close>
  of a commit id, not in the sources: fields of the commit object (section 3). The date
  is kept as the text \<open>date.Format\<close> prints.\<close>

definition GetAuthor :: "Client \<Rightarrow> CommitID \<Rightarrow> error + string" where
  "GetAuthor c cmt = map_sum id c_author (read_commit c cmt)"

definition GetDate :: "Client \<Rightarrow> CommitID \<Rightarrow> error + string" where
  "GetDate c cmt = map_sum id c_date (read_commit c cmt)"

definition GetCommitMessage :: "Client \<Rightarrow> CommitID \<Rightarrow> error + string" where
  "GetCommitMessage c cmt = map_sum id c_message (read_commit c cmt)"

definition Parents :: "Client \<Rightarrow> CommitID \<Rightarrow> error + CommitID list" where
  "Parents c cmt = map_sum id c_parents (read_commit c cmt)"

text \<open>How a call ends: it returns (with an error or nil), panics, or exits the process.\<close>

datatype outcome = Returned "error option" | Panicked error | Exited nat

text \<open>\<open>printCommit\<close> of \<^verbatim>\<open>cmd/log.go\<close>: each print statement appends one \<open>out_line\<close> (the
  three statements of the \<open>Merge:\<close> line are one). The error of \<open>GetCommitMessage\<close> is
  not looked at, as in the source; the message is then the empty string.\<close>

definition printCommit :: "Client \<Rightarrow> CommitID \<Rightarrow> out_line list \<Rightarrow> outcome \<times> out_line list" where
  "printCommit c cmt out =
     (case GetAuthor c cmt of
        Inl err \<Rightarrow> (Panicked err, out)
      | Inr author \<Rightarrow>
          (let out1 = out @ [OutCommit cmt];
               out2 = (case Parents c cmt of
                         Inr parents \<Rightarrow>
                           if length parents > 1 then out1 @ [OutMerge parents] else out1
                       | Inl err \<Rightarrow> out1)
           in case GetDate c cmt of
                Inl err \<Rightarrow> (Panicked err, out2)
              | Inr date \<Rightarrow>
                  (let msg = (case GetCommitMessage c cmt of Inr m \<Rightarrow> m | Inl err \<Rightarrow> []);
                       lines = Split (TrimSpace msg) (CHR 0x0A)
                   in (Returned None,
                       out2 @ [OutAuthorDate author date, OutLog cmt] @
                       map OutMessageLine lines @ [OutBlank]))))"

text \<open>The global \<open>visited\<close> and the standard output, threaded through the walk.\<close>

record walk_state =
  visited :: "CommitID \<rightharpoonup> bool"
  stdout :: "out_line list"

text \<open>\<open>walkParents\<close> of \<^verbatim>\<open>cmd/log.go\<close>, with the \<open>for\<close> loop over the parents as
  \<open>walkParents_loop\<close>. The first argument is fuel for the recursion: \<open>None\<close> is a walk that
  did not come to an end within it.\<close>

fun walkParents :: "nat \<Rightarrow> Client \<Rightarrow> CommitID \<Rightarrow> walk_state \<Rightarrow> (outcome \<times> walk_state) option"
  and walkParents_loop :: "nat \<Rightarrow> Client \<Rightarrow> CommitID list \<Rightarrow> walk_state \<Rightarrow> (outcome \<times> walk_state) option" where
  "walkParents 0 c cmt st = None"
| "walkParents (Suc n) c cmt st =
     (if visited st cmt = Some True then Some (Returned None, st)
      else
        (let st1 = st\<lparr>visited := (visited st)(cmt \<mapsto> True)\<rparr>
         in case printCommit c cmt (stdout st1) of
              (Panicked err, out) \<Rightarrow> Some (Panicked err, st1\<lparr>stdout := out\<rparr>)
            | (r, out) \<Rightarrow>
                (case Parents c cmt of
                   Inl err \<Rightarrow> Some (Returned (Some err), st1\<lparr>stdout := out\<rparr>)
                 | Inr parents \<Rightarrow> walkParents_loop n c parents (st1\<lparr>stdout := out\<rparr>))))"
| "walkParents_loop n c [] st = Some (Returned None, st)"
| "walkParents_loop n c (p # ps) st =
     (if visited st p \<noteq> None then walkParents_loop n c ps st
      else
        (case walkParents n c p st of
           None \<Rightarrow> None
         | Some (Returned None, st') \<Rightarrow> walkParents_loop n c ps st'
         | Some (r, st') \<Rightarrow> Some (r, st')))"

text \<open>\<open>Log\<close> of \<^verbatim>\<open>cmd/log.go\<close>. The result is how the call ends and what it printed. The
  walk gets more fuel than the object store has objects.\<close>

definition Log :: "collab \<Rightarrow> Client \<Rightarrow> string list \<Rightarrow> (outcome \<times> out_line list) option" where
  "Log X c args =
     (case flags_Parse X args of
        ParseExit code out \<Rightarrow> Some (Exited code, out)
      | Parsed rest \<Rightarrow>
          if length rest > 1 then
            Some (Exited 2,
                  [OutDiagnostic ''Paths are not yet implemented, just the revision'', OutUsage])
          else
            (case (if length rest = 0 then RevParseCommitish X c RevParseOptions ''HEAD''
                   else RevParseCommitish X c RevParseOptions (hd rest)) of
               Inl err \<Rightarrow> Some (Returned (Some err), [])
             | Inr commit \<Rightarrow>
                 (case CommitID_of c commit of
                    Inl err \<Rightarrow> Some (Returned (Some err), [])
                  | Inr cmt \<Rightarrow>
                      map_option (\<lambda>(r, st). (r, stdout st))
                        (walkParents (Suc (length (objects c))) c cmt
                           \<lparr>visited = Map.empty, stdout = []\<rparr>))))"

text \<open>The commits a run printed, in the order of their \<open>commit\<close> lines.\<close>

fun printed_commits :: "out_line list \<Rightarrow> CommitID list" where
  "printed_commits [] = []"
| "printed_commits (OutCommit cmt # out) = cmt # printed_commits out"
| "printed_commits (x # out) = printed_commits out"

text \<open>The commits the walk has marked as visited, the commits of the store it has not,
  and the invariant of its output: no commit line twice, and only of marked commits.\<close>

definition marked :: "walk_state \<Rightarrow> CommitID set" where
  "marked st = {k. visited st k = Some True}"

definition unmarked :: "Client \<Rightarrow> walk_state \<Rightarrow> Sha1 set" where
  "unmarked c st = fst ` set (objects c) - marked st"

definition printed_ok :: "walk_state \<Rightarrow> bool" where
  "printed_ok st =
     (distinct (printed_commits (stdout st)) \<and> set (printed_commits (stdout st)) \<subseteq> marked st)"

section \<open>An example repository\<close>

text \<open>Two commits, \<open>c2\<close> on top of \<open>c1\<close>, whose trees differ in \<open>a.txt\<close>; \<open>HEAD\<close> is on
  \<open>master\<close> at \<open>c2\<close>, the branch \<open>old\<close> is at \<open>c1\<close>. \<open>a.txt\<close> has a staged change and a
  further local change.\<close>

definition ex_objects :: "(Sha1 \<times> GitObject) list" where
  "ex_objects =
     [(''c1'', CommitObj \<lparr>c_tree = ''t1'', c_parents = [], c_author = ''A'', c_date = ''D1'',
                          c_message = ''first''\<rparr>),
      (''c2'', CommitObj \<lparr>c_tree = ''t2'', c_parents = [''c1''], c_author = ''A'', c_date = ''D2'',
                          c_message = ''second''\<rparr>),
      (''t1'', TreeObject [(''a.txt'', (ModeBlob, ''one'')), (''b.txt'', (ModeBlob, ''bee''))]),
      (''t2'', TreeObject [(''a.txt'', (ModeBlob, ''two'')), (''b.txt'', (ModeBlob, ''bee''))])]"

definition ex_client :: Client where
  "ex_client =
     \<lparr>refs = [''HEAD'' \<mapsto> Symbolic ''refs/heads/master'',
              ''refs/heads/master'' \<mapsto> Direct ''c2'',
              ''refs/heads/old'' \<mapsto> Direct ''c1''],
      packed_refs = Map.empty,
      objects = ex_objects,
      index = [(''a.txt'', (ModeBlob, ''staged'')), (''b.txt'', (ModeBlob, ''bee''))],
      workdir = [''a.txt'' \<mapsto> \<lparr>w_mode = ModeBlob, w_content = ''local''\<rparr>,
                 ''b.txt'' \<mapsto> \<lparr>w_mode = ModeBlob, w_content = ''bee''\<rparr>],
      reflog = []\<rparr>"

text \<open>The zero value \<open>CheckoutOptions{}\<close>.\<close>

definition ex_opts :: CheckoutOptions where
  "ex_opts =
     \<lparr>co_Quiet = False, co_Progress = False, co_Force = False, co_Stage = 0,
      co_Branch = [], co_ForceBranch = False, co_OrphanBranch = False, co_Track = [],
      co_CreateReflog = False, co_Detach = False, co_IgnoreSkipWorktreeBits = False,
      co_Merge = False, co_ConflictStyle = [], co_Patch = False,
      co_IgnoreOtherWorktrees = False\<rparr>"

text \<open>The same repository with a clean index and working tree.\<close>

definition ex_clean :: Client where
  "ex_clean =
     ex_client\<lparr>index := [(''a.txt'', (ModeBlob, ''two'')), (''b.txt'', (ModeBlob, ''bee''))],
               workdir := [''a.txt'' \<mapsto> \<lparr>w_mode = ModeBlob, w_content = ''two''\<rparr>,
                           ''b.txt'' \<mapsto> \<lparr>w_mode = ModeBlob, w_content = ''bee''\<rparr>]\<rparr>"

text \<open>Collaborators: every argument is a non-flag argument, a revision is taken as a ref
  name, the patch of \<open>ex_client\<close> has one hunk, the user aborts the hunk selection, the
  temporary file gets its pattern as name, and the files named are written from the
  index, one after the other.\<close>

fun ex_CheckoutIndexUncommited ::
  "Client \<Rightarrow> TreeEntries \<Rightarrow> CheckoutIndexOptions \<Rightarrow> File list \<Rightarrow> error option \<times> Client" where
  "ex_CheckoutIndexUncommited c idx opts [] = (None, c)"
| "ex_CheckoutIndexUncommited c idx opts (f # files) =
     (case map_of idx f of
        None \<Rightarrow> (Some NotFound, c)
      | Some e \<Rightarrow>
          if workdir c f \<noteq> None \<and> \<not> ci_Force opts
          then ex_CheckoutIndexUncommited c idx opts files
          else ex_CheckoutIndexUncommited
                 (c\<lparr>workdir := (workdir c)(f \<mapsto> wfile_of e)\<rparr>) idx opts files)"

definition ex_hunk :: patchHunk where
  "ex_hunk =
     \<lparr>ph_file = ''a.txt'', ph_old_start = 1, ph_new_start = 1,
      ph_old = [''staged''], ph_new = [''local'']\<rparr>"

definition ex_collab :: collab where
  "ex_collab =
     \<lparr>flags_Parse = (\<lambda>args. Parsed args),
      RevParseCommitish = (\<lambda>c opts s. Inr (Commitish_RefSpec s)),
      RevParseTreeish = (\<lambda>c opts s. Inr (Treeish_Commitish (Commitish_RefSpec s))),
      GeneratePatch = (\<lambda>c opts diffs. Inr (concat (map hd_path diffs))),
      splitPatch = (\<lambda>s b. Inr [ex_hunk]),
      filterHunks = (\<lambda>prompt hunks. Inl userAborted),
      TempFile = (\<lambda>tmp dir pat. Inr (''/tmp/'' @ pat)),
      CheckoutIndexUncommited = ex_CheckoutIndexUncommited\<rparr>"

text \<open>The same collaborators with a user who selects no hunk, and with a temporary
  directory in which, besides, no file can be created.\<close>

definition ex_collab_none :: collab where
  "ex_collab_none = ex_collab\<lparr>filterHunks := (\<lambda>prompt hunks. Inr [])\<rparr>"

definition ex_collab_notemp :: collab where
  "ex_collab_notemp = ex_collab_none\<lparr>TempFile := (\<lambda>tmp dir pat. Inl IoError)\<rparr>"

text \<open>No temporary file, and no operation on one yet.\<close>

definition ex_tmp :: TempDir where
  "ex_tmp = \<lparr>td_files = Map.empty, td_ops = []\<rparr>"

text \<open>A store whose first commit wrongly names the second as its parent.\<close>

definition ex_cyclic :: Client where
  "ex_cyclic =
     ex_client\<lparr>objects :=
       [(''c1'', CommitObj \<lparr>c_tree = ''t1'', c_parents = [''c2''], c_author = ''A'',
                            c_date = ''D1'', c_message = ''first''\<rparr>),
        (''c2'', CommitObj \<lparr>c_tree = ''t2'', c_parents = [''c1''], c_author = ''A'',
                            c_date = ''D2'', c_message = ''second''\<rparr>)]\<rparr>"


section \<open>Diff\<close>

lemmas ex_eval =
  ex_client_def ex_objects_def ex_opts_def GetHeadCommit_def resolve_def resolve_n.simps read_ref_def
  commit_tree_def read_commit_def read_tree_object_def ReadIndex_def diff_engine_def
  select_paths_def path_selected_def worktree_entries_def

lemmas co_eval =
  CheckoutCommit_def SymbolicRefGet_def ReadTree_def head_tree_def readtreeopts_def
  SymbolicRefUpdate_def UpdateRef_def resolved_def Let_def wfile_of_def entry_of_def
  new_index_def List.map_filter_simps origB_def BranchName_def

lemma resolve_n_refs:
  "refs c' = refs c \<Longrightarrow> packed_refs c' = packed_refs c \<Longrightarrow> resolve_n k c' name = resolve_n k c name"
proof (induction k arbitrary: name)
  case 0
  then show ?case
    by (simp add: resolve_n.simps [of 0] read_ref_def split: option.splits RefValue.splits)
next
  case (Suc k)
  then show ?case
    by (simp add: resolve_n.simps [of "Suc k"] read_ref_def split: option.splits RefValue.splits)
qed

lemma staged_ignores_workdir:
  "GetHeadCommit (c\<lparr>workdir := w\<rparr>) = GetHeadCommit c"
  "commit_tree (c\<lparr>workdir := w\<rparr>) h = commit_tree c h"
proof -
  have "resolve_n 5 (c\<lparr>workdir := w\<rparr>) ''HEAD'' = resolve_n 5 c ''HEAD''"
    by (rule resolve_n_refs) simp_all
  then show "GetHeadCommit (c\<lparr>workdir := w\<rparr>) = GetHeadCommit c"
    by (simp add: GetHeadCommit_def resolve_def)
  show "commit_tree (c\<lparr>workdir := w\<rparr>) h = commit_tree c h"
    by (simp add: commit_tree_def read_commit_def read_tree_object_def
        split: sum.splits option.splits GitObject.splits)
qed

text \<open>
  C1. \<open>Diff\<close> with \<open>Staged\<close> set is the diff from the tree of the \<open>HEAD\<close> commit to the
  index: it calls \<open>DiffIndex\<close> with \<open>Cached\<close> true, the index read and the \<open>HEAD\<close> commit
  (the error of resolving \<open>HEAD\<close>, if any, is returned as it is), and the result does not
  depend on the working tree. With \<open>Staged\<close> unset it is the diff from the index to the
  working tree: it calls \<open>DiffFiles\<close>, and the result does not depend on the references
  or the object store. Nothing but \<open>Staged\<close> selects between the two.
\<close>

theorem Diff_Staged_selects:
  "(do_Staged opt \<longrightarrow>
      Diff c opt paths =
        (case GetHeadCommit c of
           Inl err \<Rightarrow> Inl err
         | Inr head \<Rightarrow>
             DiffIndex c \<lparr>di_DiffCommonOptions = do_DiffCommonOptions opt, di_Cached = True\<rparr>
               (index c) head paths) \<and>
      (\<forall>head t. GetHeadCommit c = Inr head \<and> commit_tree c head = Inr t \<longrightarrow>
         Diff c opt paths =
           Inr (diff_engine (select_paths paths t) (select_paths paths (index c)))) \<and>
      (\<forall>w. Diff (c\<lparr>workdir := w\<rparr>) opt paths = Diff c opt paths)) \<and>
   (\<not> do_Staged opt \<longrightarrow>
      Diff c opt paths = DiffFiles c \<lparr>df_DiffCommonOptions = do_DiffCommonOptions opt\<rparr> paths \<and>
      Diff c opt paths =
        Inr (diff_engine (select_paths paths (index c))
               (select_paths paths (worktree_entries c (index c)))) \<and>
      (\<forall>r pr ob. Diff (c\<lparr>refs := r, packed_refs := pr, objects := ob\<rparr>) opt paths =
                   Diff c opt paths))"
proof (intro conjI impI allI)
  assume staged: "do_Staged opt"
  show "Diff c opt paths =
          (case GetHeadCommit c of
             Inl err \<Rightarrow> Inl err
           | Inr head \<Rightarrow>
               DiffIndex c \<lparr>di_DiffCommonOptions = do_DiffCommonOptions opt, di_Cached = True\<rparr>
                 (index c) head paths)"
    using staged by (simp add: Diff_def ReadIndex_def split: sum.splits)
  show "Diff c opt paths = Inr (diff_engine (select_paths paths t) (select_paths paths (index c)))"
    if "GetHeadCommit c = Inr head \<and> commit_tree c head = Inr t" for head t
    using staged that by (simp add: Diff_def ReadIndex_def DiffIndex_def)
  show "Diff (c\<lparr>workdir := w\<rparr>) opt paths = Diff c opt paths" for w
    using staged
    by (simp add: Diff_def ReadIndex_def DiffIndex_def staged_ignores_workdir Let_def
        split: sum.splits)
next
  assume unstaged: "\<not> do_Staged opt"
  show "Diff c opt paths = DiffFiles c \<lparr>df_DiffCommonOptions = do_DiffCommonOptions opt\<rparr> paths"
    using unstaged by (simp add: Diff_def)
  show "Diff c opt paths =
          Inr (diff_engine (select_paths paths (index c))
                 (select_paths paths (worktree_entries c (index c))))"
    using unstaged by (simp add: Diff_def DiffFiles_def)
  show "Diff (c\<lparr>refs := r, packed_refs := pr, objects := ob\<rparr>) opt paths = Diff c opt paths"
    for r pr ob
    using unstaged by (simp add: Diff_def DiffFiles_def worktree_entries_def)
qed

theorem Diff_Staged_selects_witness:
  "Diff ex_client \<lparr>do_DiffCommonOptions = DiffCommonOptions_zero, do_Staged = True\<rparr> [] =
     Inr [\<lparr>hd_path = ''a.txt'', hd_mode_before = Some ModeBlob, hd_mode_after = Some ModeBlob,
           hd_digest_before = Some ''two'', hd_digest_after = Some ''staged'',
           hd_status = Modified\<rparr>] \<and>
   Diff ex_client \<lparr>do_DiffCommonOptions = DiffCommonOptions_zero, do_Staged = False\<rparr> [] =
     Inr [\<lparr>hd_path = ''a.txt'', hd_mode_before = Some ModeBlob, hd_mode_after = Some ModeBlob,
           hd_digest_before = Some ''staged'', hd_digest_after = Some ''local'',
           hd_status = Modified\<rparr>]"
  using
    Diff_Staged_selects
      [of "\<lparr>do_DiffCommonOptions = DiffCommonOptions_zero, do_Staged = True\<rparr>" ex_client "[]"]
    Diff_Staged_selects
      [of "\<lparr>do_DiffCommonOptions = DiffCommonOptions_zero, do_Staged = False\<rparr>" ex_client "[]"]
  by (simp add: ex_eval List.map_filter_simps Diff_def DiffIndex_def DiffFiles_def)

section \<open>Checkout of a commit: the new branch exists\<close>

text \<open>
  C9. If the \<open>Branch\<close> option names a branch whose ref file \<open>refs/heads/<name>\<close> exists and
  \<open>ForceBranch\<close> is not set, \<open>CheckoutCommit\<close> returns the error
  \<open>Branch <name> already exists.\<close> and leaves the repository as it was: no tree is read,
  and \<open>HEAD\<close>, the index and the working tree are untouched.
\<close>

theorem CheckoutCommit_Branch_exists:
  assumes "co_Branch opts \<noteq> []"
    and "RefSpec_File_Exists c (''refs/heads/'' @ co_Branch opts)"
    and "\<not> co_ForceBranch opts"
  shows "CheckoutCommit c opts commit =
           (Some (Errorf (''Branch '' @ co_Branch opts @ '' already exists.'')), c)"
  using assms by (simp add: CheckoutCommit_def)

theorem CheckoutCommit_Branch_exists_witness:
  "CheckoutCommit ex_client (ex_opts\<lparr>co_Branch := ''old''\<rparr>) (Commitish_CommitID ''c1'') =
     (Some (Errorf ''Branch old already exists.''), ex_client)"
proof -
  have h1: "co_Branch (ex_opts\<lparr>co_Branch := ''old''\<rparr>) \<noteq> []"
    by simp
  have h2: "RefSpec_File_Exists ex_client
              (''refs/heads/'' @ co_Branch (ex_opts\<lparr>co_Branch := ''old''\<rparr>))"
    by (simp add: RefSpec_File_Exists_def ex_client_def)
  have h3: "\<not> co_ForceBranch (ex_opts\<lparr>co_Branch := ''old''\<rparr>)"
    by (simp add: ex_opts_def)
  show ?thesis
    using CheckoutCommit_Branch_exists [OF h1 h2 h3] by simp
qed


section \<open>Staged diff against an empty index\<close>

lemma walk_trees_Nil2: "walk_trees bs [] = map (\<lambda>(p, b). (p, Some b, None)) bs"
  by (cases bs) simp_all

lemma diff_engine_Nil2:
  "diff_engine t [] =
     map (\<lambda>(p, m, d). \<lparr>hd_path = p, hd_mode_before = Some m, hd_mode_after = None,
            hd_digest_before = Some d, hd_digest_after = None, hd_status = Deleted\<rparr>) t"
  unfolding diff_engine_def walk_trees_Nil2 by (induction t) auto

lemma select_paths_Nil: "select_paths [] t = t"
  by (simp add: select_paths_def path_selected_def)

text \<open>
  C5. With \<open>Staged\<close>, an empty index and a \<open>HEAD\<close> commit with tree \<open>t\<close>, \<open>Diff\<close> yields one
  \<open>HashDiff\<close> per path of \<open>t\<close> that the path arguments select (every path of \<open>t\<close> when no
  path is given), in the order of \<open>t\<close>, each with status \<open>Deleted\<close>.
\<close>

theorem Diff_Staged_empty_index:
  assumes "do_Staged opt"
    and "index c = []"
    and "GetHeadCommit c = Inr head"
    and "commit_tree c head = Inr t"
  shows "\<exists>ds. Diff c opt paths = Inr ds \<and>
               map hd_path ds = map fst (select_paths paths t) \<and>
               (\<forall>d \<in> set ds. hd_status d = Deleted) \<and>
               (paths = [] \<longrightarrow> map hd_path ds = map fst t)"
proof -
  define ds where "ds = diff_engine (select_paths paths t) []"
  have "select_paths paths (index c) = []"
    using assms(2) by (simp add: select_paths_def)
  then have run: "Diff c opt paths = Inr ds"
    using assms by (simp add: Diff_def ReadIndex_def DiffIndex_def ds_def)
  have "map hd_path (diff_engine xs []) = map fst xs" for xs
    unfolding diff_engine_Nil2 by (induction xs) auto
  then have p: "map hd_path ds = map fst (select_paths paths t)"
    by (simp add: ds_def)
  have s: "\<forall>d \<in> set ds. hd_status d = Deleted"
    unfolding ds_def diff_engine_Nil2 by auto
  from run p s show ?thesis
    by (auto simp: select_paths_Nil)
qed

theorem Diff_Staged_empty_index_witness:
  "Diff (ex_client\<lparr>index := []\<rparr>) \<lparr>do_DiffCommonOptions = DiffCommonOptions_zero, do_Staged = True\<rparr> [] =
     Inr [\<lparr>hd_path = ''a.txt'', hd_mode_before = Some ModeBlob, hd_mode_after = None,
           hd_digest_before = Some ''two'', hd_digest_after = None, hd_status = Deleted\<rparr>,
          \<lparr>hd_path = ''b.txt'', hd_mode_before = Some ModeBlob, hd_mode_after = None,
           hd_digest_before = Some ''bee'', hd_digest_after = None, hd_status = Deleted\<rparr>]"
proof -
  have h1: "do_Staged \<lparr>do_DiffCommonOptions = DiffCommonOptions_zero, do_Staged = True\<rparr>"
    by simp
  have h2: "index (ex_client\<lparr>index := []\<rparr>) = []"
    by simp
  have h3: "GetHeadCommit (ex_client\<lparr>index := []\<rparr>) = Inr ''c2''"
    by (simp add: ex_eval)
  have h4: "commit_tree (ex_client\<lparr>index := []\<rparr>) ''c2'' =
              Inr [(''a.txt'', (ModeBlob, ''two'')), (''b.txt'', (ModeBlob, ''bee''))]"
    by (simp add: ex_eval)
  show ?thesis
    using Diff_Staged_empty_index [OF h1 h2 h3 h4, of "[]"]
    by (simp add: ex_eval Diff_def DiffIndex_def)
qed

section \<open>Checkout of a commit: the update of HEAD\<close>

lemma ReadTree_refs:
  "ReadTree c opt t = (r, c1) \<Longrightarrow>
     refs c1 = refs c \<and> packed_refs c1 = packed_refs c \<and> objects c1 = objects c \<and> reflog c1 = reflog c"
  by (auto simp: ReadTree_def Let_def split: sum.splits list.splits)

text \<open>
  C4. When \<open>CheckoutCommit\<close> succeeds on a \<open>Branch\<close> and \<open>Detach\<close> is not set, the file
  \<open>HEAD\<close> holds a symbolic reference to that branch (a \<open>Branch\<close> value is the ref name
  \<open>refs/heads/<branch>\<close>). In every other case \<open>HEAD\<close> holds the commit digest itself
  (detached \<open>HEAD\<close>). No other ref file changes: the update is not dereferenced.
\<close>

theorem CheckoutCommit_updates_HEAD:
  assumes "CheckoutCommit c opts commit = (None, c')"
  shows "(\<forall>b. commit = Commitish_Branch b \<and> \<not> co_Detach opts \<longrightarrow>
            refs c' ''HEAD'' = Some (Symbolic b)) \<and>
         ((\<forall>b. commit \<noteq> Commitish_Branch b) \<or> co_Detach opts \<longrightarrow>
            (\<exists>cid. CommitID_of c commit = Inr cid \<and> refs c' ''HEAD'' = Some (Direct cid))) \<and>
         (\<forall>r. r \<noteq> ''HEAD'' \<longrightarrow> refs c' r = refs c r)"
  using assms
  apply (simp add: CheckoutCommit_def split: if_splits prod.splits sum.splits option.splits bool.splits)
   apply (auto simp: SymbolicRefUpdate_def UpdateRef_def Let_def dest!: ReadTree_refs split: if_splits)
  apply (cases commit; simp)+
  done

theorem CheckoutCommit_updates_HEAD_witness:
  "refs (snd (CheckoutCommit ex_clean ex_opts (Commitish_Branch ''refs/heads/old''))) ''HEAD'' =
     Some (Symbolic ''refs/heads/old'') \<and>
   refs (snd (CheckoutCommit ex_clean ex_opts (Commitish_CommitID ''c1''))) ''HEAD'' =
     Some (Direct ''c1'') \<and>
   refs (snd (CheckoutCommit ex_clean ex_opts (Commitish_CommitID ''c1''))) ''refs/heads/master'' =
     Some (Direct ''c2'')"
proof -
  have b: "CheckoutCommit ex_clean ex_opts (Commitish_Branch ''refs/heads/old'') =
             (None, snd (CheckoutCommit ex_clean ex_opts (Commitish_Branch ''refs/heads/old'')))"
    by (rule prod_eqI) (simp_all add: ex_clean_def ex_eval co_eval)
  have d: "CheckoutCommit ex_clean ex_opts (Commitish_CommitID ''c1'') =
             (None, snd (CheckoutCommit ex_clean ex_opts (Commitish_CommitID ''c1'')))"
    by (rule prod_eqI) (simp_all add: ex_clean_def ex_eval co_eval)
  have nd: "\<not> co_Detach ex_opts"
    by (simp add: ex_opts_def)
  show ?thesis
    using CheckoutCommit_updates_HEAD [OF b] CheckoutCommit_updates_HEAD [OF d] nd
    by (simp add: ex_clean_def ex_client_def)
qed

section \<open>Checkout of a commit over a dirty working tree\<close>

lemma resolve_read_ref: "resolve c name = Inr d \<Longrightarrow> read_ref c name \<noteq> None"
  unfolding resolve_def by (subst (asm) resolve_n.simps) (auto split: option.splits)

lemma ReadTree_dirty:
  assumes "treeish_entries c tree = Inr T1"
    and "head_tree c = Inr T0"
    and "rt_Update opt" "rt_Merge opt" "\<not> rt_Reset opt"
    and "filter (\<lambda>t. overwrites t \<and> workdir_dirty c t) (walk_trees T0 T1) = (p, x) # rest"
  shows "ReadTree c opt tree = (([], Some (WorkdirDirty p)), c)"
  using assms by (simp add: ReadTree_def)

lemma CheckoutCommit_reaches_ReadTree:
  assumes "co_Branch opts = [] \<or> co_ForceBranch opts \<or>
           \<not> RefSpec_File_Exists c (''refs/heads/'' @ co_Branch opts)"
    and "read_ref c ''HEAD'' \<noteq> None"
    and "CommitID_of c commit = Inr cid"
    and "ReadTree c (readtreeopts opts) (Treeish_Commitish (Commitish_CommitID cid)) = ((i, Some e), c1)"
  shows "CheckoutCommit c opts commit = (Some e, c1)"
  using assms
  by (auto simp: CheckoutCommit_def SymbolicRefGet_def split: option.splits RefValue.splits)

text \<open>
  C2. Let the tree of the current \<open>HEAD\<close> and the tree of the commit to check out differ in
  one path \<open>p\<close> only, and let the working-tree file at \<open>p\<close> differ from both. Then
  \<open>CheckoutCommit\<close> without \<open>Force\<close> returns \<open>WorkdirDirty p\<close> and the repository is as it
  was: index and working tree are not touched, and \<open>HEAD\<close> is not updated (its update comes
  after \<open>ReadTree\<close> has succeeded).
\<close>

theorem CheckoutCommit_WorkdirDirty:
  assumes "co_Branch opts = [] \<or> co_ForceBranch opts \<or>
           \<not> RefSpec_File_Exists c (''refs/heads/'' @ co_Branch opts)"
    and "\<not> co_Force opts"
    and "GetHeadCommit c = Inr h"
    and "commit_tree c h = Inr T0"
    and "CommitID_of c commit = Inr cid"
    and "commit_tree c cid = Inr T1"
    and "filter overwrites (walk_trees T0 T1) = [(p, orig, target)]"
    and "workdir c p = Some w"
    and "Some (entry_of w) \<noteq> orig"
    and "Some (entry_of w) \<noteq> target"
  shows "CheckoutCommit c opts commit = (Some (WorkdirDirty p), c)"
proof -
  have head: "read_ref c ''HEAD'' \<noteq> None"
    using assms(3) by (simp add: GetHeadCommit_def resolve_read_ref)
  have O: "head_tree c = Inr T0"
    using assms(3,4) by (simp add: head_tree_def)
  have A: "treeish_entries c (Treeish_Commitish (Commitish_CommitID cid)) = Inr T1"
    using assms(6) by simp
  have "filter (\<lambda>t. overwrites t \<and> workdir_dirty c t) (walk_trees T0 T1) =
          filter (workdir_dirty c) (filter overwrites (walk_trees T0 T1))"
    by (simp add: conj_commute)
  also have "\<dots> = [(p, orig, target)]"
    using assms(7-10) by simp
  finally have "ReadTree c (readtreeopts opts) (Treeish_Commitish (Commitish_CommitID cid)) =
                  (([], Some (WorkdirDirty p)), c)"
    using assms(2) by (intro ReadTree_dirty [OF A O]) (simp_all add: readtreeopts_def)
  then show ?thesis
    by (rule CheckoutCommit_reaches_ReadTree [OF assms(1) head assms(5)])
qed

theorem CheckoutCommit_WorkdirDirty_witness:
  "CheckoutCommit ex_client ex_opts (Commitish_Branch ''refs/heads/old'') =
     (Some (WorkdirDirty ''a.txt''), ex_client)"
proof -
  let ?T0 = "[(''a.txt'', (ModeBlob, ''two'')), (''b.txt'', (ModeBlob, ''bee''))]"
  let ?T1 = "[(''a.txt'', (ModeBlob, ''one'')), (''b.txt'', (ModeBlob, ''bee''))]"
  have h1: "co_Branch ex_opts = [] \<or> co_ForceBranch ex_opts \<or>
           \<not> RefSpec_File_Exists ex_client (''refs/heads/'' @ co_Branch ex_opts)"
    by (simp add: ex_opts_def)
  have h2: "\<not> co_Force ex_opts"
    by (simp add: ex_opts_def)
  have h3: "GetHeadCommit ex_client = Inr ''c2''"
    by (simp add: ex_eval)
  have h4: "commit_tree ex_client ''c2'' = Inr ?T0"
    by (simp add: ex_eval)
  have h5: "CommitID_of ex_client (Commitish_Branch ''refs/heads/old'') = Inr ''c1''"
    by (simp add: ex_eval)
  have h6: "commit_tree ex_client ''c1'' = Inr ?T1"
    by (simp add: ex_eval)
  have h7: "filter overwrites (walk_trees ?T0 ?T1) =
              [(''a.txt'', Some (ModeBlob, ''two''), Some (ModeBlob, ''one''))]"
    by simp
  have h8: "workdir ex_client ''a.txt'' = Some \<lparr>w_mode = ModeBlob, w_content = ''local''\<rparr>"
    by (simp add: ex_client_def)
  have h9: "Some (entry_of \<lparr>w_mode = ModeBlob, w_content = ''local''\<rparr>) \<noteq> Some (ModeBlob, ''two'')"
    by (simp add: entry_of_def)
  have h10: "Some (entry_of \<lparr>w_mode = ModeBlob, w_content = ''local''\<rparr>) \<noteq> Some (ModeBlob, ''one'')"
    by (simp add: entry_of_def)
  show ?thesis
    using CheckoutCommit_WorkdirDirty [OF h1 h2 h3 h4 h5 h6 h7 h8 h9 h10] by simp
qed


section \<open>Checkout of a commit with Force\<close>

lemma fold_mutations_other:
  "p \<notin> fst ` set tuples \<Longrightarrow>
     fold apply_mutation (concat (map (mutations_of r) tuples)) wd p = wd p"
  by (induction tuples arbitrary: wd) (auto split: option.splits)

lemma fold_mutations_reset:
  "distinct (map fst tuples) \<Longrightarrow> (p, orig, target) \<in> set tuples \<Longrightarrow>
     fold apply_mutation (concat (map (mutations_of True) tuples)) wd p = map_option wfile_of target"
proof (induction tuples arbitrary: wd)
  case Nil
  then show ?case by simp
next
  case (Cons t tuples)
  show ?case
  proof (cases "t = (p, orig, target)")
    case True
    then have "p \<notin> fst ` set tuples"
      using Cons.prems(1) by auto
    then show ?thesis
      using True by (simp add: fold_mutations_other split: option.splits)
  next
    case False
    then have "(p, orig, target) \<in> set tuples"
      using Cons.prems(2) by simp
    moreover have "distinct (map fst tuples)"
      using Cons.prems(1) by simp
    ultimately show ?thesis
      by (simp add: Cons.IH)
  qed
qed

lemma ReadTree_reset:
  assumes "treeish_entries c tree = Inr T1"
    and "head_tree c = Inr T0"
    and "rt_Update opt" "rt_Reset opt"
  shows "ReadTree c opt tree =
           ((new_index (walk_trees T0 T1), None),
            c\<lparr>workdir := fold apply_mutation (concat (map (mutations_of True) (walk_trees T0 T1)))
                           (workdir c),
              index := new_index (walk_trees T0 T1)\<rparr>)"
  using assms by (simp add: ReadTree_def Let_def)

lemma resolve_n_error:
  "resolve_n k c name = Inl e \<Longrightarrow> e = NotFound \<or> e = RefLoop"
  by (induction k c name rule: resolve_n.induct)
    (subst (asm) (2) resolve_n.simps, auto split: option.splits RefValue.splits nat.splits)

lemma CommitID_of_error:
  "CommitID_of c x = Inl e \<Longrightarrow> e = NotFound \<or> e = RefLoop"
  by (cases x) (auto simp: resolve_def dest: resolve_n_error)

lemma commit_tree_error:
  "commit_tree c cmt = Inl e \<Longrightarrow> e = NotFound"
  by (auto simp: commit_tree_def read_commit_def read_tree_object_def
      split: sum.splits option.splits GitObject.splits)

lemma treeish_entries_error:
  "treeish_entries c t = Inl e \<Longrightarrow> e = NotFound \<or> e = RefLoop"
  by (cases t)
    (auto simp: read_tree_object_def split: sum.splits option.splits GitObject.splits
      dest: CommitID_of_error commit_tree_error)

lemma head_tree_error:
  "head_tree c = Inl e \<Longrightarrow> e = NotFound"
  by (auto simp: head_tree_def split: sum.splits dest: commit_tree_error)

lemma ReadTree_no_WorkdirDirty:
  assumes "rt_Reset opt \<or> \<not> rt_Update opt \<or> \<not> rt_Merge opt"
  shows "ReadTree c opt tree \<noteq> ((i, Some (WorkdirDirty q)), c1)"
proof (cases "treeish_entries c tree")
  case (Inl e)
  then show ?thesis
    by (auto simp: ReadTree_def dest: treeish_entries_error)
next
  case (Inr T1)
  show ?thesis
  proof (cases "head_tree c")
    case (Inl e)
    then show ?thesis
      using Inr by (auto simp: ReadTree_def dest: head_tree_error)
  next
    case (Inr T0)
    then show ?thesis
      using \<open>treeish_entries c tree = Inr T1\<close> assms by (auto simp: ReadTree_def Let_def)
  qed
qed


lemma CheckoutCommit_Force_no_WorkdirDirty:
  assumes "co_Force opts"
  shows "fst (CheckoutCommit c opts commit) \<noteq> Some (WorkdirDirty q)"
proof -
  have rt: "ReadTree c (readtreeopts opts) t \<noteq> ((i, Some (WorkdirDirty q)), c1)" for t i c1
    using assms by (intro ReadTree_no_WorkdirDirty) (simp add: readtreeopts_def)
  show ?thesis
    using rt
    by (auto simp: CheckoutCommit_def SymbolicRefGet_def SymbolicRefUpdate_def UpdateRef_def Let_def
        split: option.splits RefValue.splits sum.splits prod.splits bool.splits
        dest: CommitID_of_error)
qed

lemma CheckoutCommit_after_ReadTree:
  assumes "co_Branch opts = [] \<or> co_ForceBranch opts \<or>
           \<not> RefSpec_File_Exists c (''refs/heads/'' @ co_Branch opts)"
    and "read_ref c ''HEAD'' \<noteq> None"
    and "CommitID_of c commit = Inr cid"
    and "ReadTree c (readtreeopts opts) (Treeish_Commitish (Commitish_CommitID cid)) = ((i, None), c1)"
  shows "workdir (snd (CheckoutCommit c opts commit)) = workdir c1 \<and>
         index (snd (CheckoutCommit c opts commit)) = index c1"
  using assms
  by (auto simp: CheckoutCommit_def SymbolicRefGet_def SymbolicRefUpdate_def UpdateRef_def Let_def
      split: option.splits RefValue.splits bool.splits)

text \<open>
  C7. \<open>CheckoutCommit\<close> calls \<open>ReadTree\<close> with \<open>Update\<close> and \<open>Reset\<close> and without \<open>Merge\<close> when
  \<open>Force\<close> is set, and with \<open>Update\<close> and \<open>Merge\<close> otherwise. With \<open>Force\<close> it never returns
  \<open>WorkdirDirty\<close>, and every walked path ends up in the working tree as the target tree has
  it (written, or removed where the target has no entry), whatever was there. Without
  \<open>Force\<close> a dirty file the walker would overwrite makes it return \<open>WorkdirDirty\<close>, the
  repository left as it was.
\<close>

theorem CheckoutCommit_Force_resets:
  assumes "co_Branch opts = [] \<or> co_ForceBranch opts \<or>
           \<not> RefSpec_File_Exists c (''refs/heads/'' @ co_Branch opts)"
    and "read_ref c ''HEAD'' \<noteq> None"
    and "CommitID_of c commit = Inr cid"
    and "commit_tree c cid = Inr T1"
    and "head_tree c = Inr T0"
  shows "readtreeopts opts =
           (if co_Force opts then \<lparr>rt_Update = True, rt_Merge = False, rt_Reset = True\<rparr>
            else \<lparr>rt_Update = True, rt_Merge = True, rt_Reset = False\<rparr>) \<and>
         (co_Force opts \<longrightarrow>
            (\<forall>q. fst (CheckoutCommit c opts commit) \<noteq> Some (WorkdirDirty q)) \<and>
            (distinct (map fst (walk_trees T0 T1)) \<longrightarrow>
               (\<forall>(p, orig, target) \<in> set (walk_trees T0 T1).
                  workdir (snd (CheckoutCommit c opts commit)) p = map_option wfile_of target))) \<and>
         (\<not> co_Force opts \<longrightarrow>
            (\<forall>t \<in> set (walk_trees T0 T1). overwrites t \<and> workdir_dirty c t \<longrightarrow>
               (\<exists>q. CheckoutCommit c opts commit = (Some (WorkdirDirty q), c))))"
proof (intro conjI impI)
  let ?tree = "Treeish_Commitish (Commitish_CommitID cid)"
  have T1: "treeish_entries c ?tree = Inr T1"
    using assms(4) by simp
  show "readtreeopts opts =
          (if co_Force opts then \<lparr>rt_Update = True, rt_Merge = False, rt_Reset = True\<rparr>
           else \<lparr>rt_Update = True, rt_Merge = True, rt_Reset = False\<rparr>)"
    by (simp add: readtreeopts_def)
  show "\<forall>q. fst (CheckoutCommit c opts commit) \<noteq> Some (WorkdirDirty q)" if "co_Force opts"
    using that by (simp add: CheckoutCommit_Force_no_WorkdirDirty)
  show "\<forall>(p, orig, target) \<in> set (walk_trees T0 T1).
          workdir (snd (CheckoutCommit c opts commit)) p = map_option wfile_of target"
    if "co_Force opts" and d: "distinct (map fst (walk_trees T0 T1))"
  proof -
    have "ReadTree c (readtreeopts opts) ?tree =
            ((new_index (walk_trees T0 T1), None),
             c\<lparr>workdir := fold apply_mutation
                             (concat (map (mutations_of True) (walk_trees T0 T1))) (workdir c),
               index := new_index (walk_trees T0 T1)\<rparr>)"
      using that(1) by (intro ReadTree_reset [OF T1 assms(5)]) (simp_all add: readtreeopts_def)
    then have "workdir (snd (CheckoutCommit c opts commit)) =
                 fold apply_mutation (concat (map (mutations_of True) (walk_trees T0 T1))) (workdir c)"
      using CheckoutCommit_after_ReadTree [OF assms(1-3)] by simp
    then show ?thesis
      using d by (auto simp: fold_mutations_reset)
  qed
  show "\<forall>t \<in> set (walk_trees T0 T1). overwrites t \<and> workdir_dirty c t \<longrightarrow>
          (\<exists>q. CheckoutCommit c opts commit = (Some (WorkdirDirty q), c))"
    if "\<not> co_Force opts"
  proof (intro ballI impI)
    fix t
    assume "t \<in> set (walk_trees T0 T1)" and "overwrites t \<and> workdir_dirty c t"
    then have "filter (\<lambda>t. overwrites t \<and> workdir_dirty c t) (walk_trees T0 T1) \<noteq> []"
      by (auto simp: filter_empty_conv)
    then obtain q x rest where
      "filter (\<lambda>t. overwrites t \<and> workdir_dirty c t) (walk_trees T0 T1) = (q, x) # rest"
      by (cases "filter (\<lambda>t. overwrites t \<and> workdir_dirty c t) (walk_trees T0 T1)") auto
    then have "ReadTree c (readtreeopts opts) ?tree = (([], Some (WorkdirDirty q)), c)"
      using that by (intro ReadTree_dirty [OF T1 assms(5)]) (simp_all add: readtreeopts_def)
    then have "CheckoutCommit c opts commit = (Some (WorkdirDirty q), c)"
      by (rule CheckoutCommit_reaches_ReadTree [OF assms(1-3)])
    then show "\<exists>q. CheckoutCommit c opts commit = (Some (WorkdirDirty q), c)"
      by blast
  qed
qed

theorem CheckoutCommit_Force_resets_witness:
  "readtreeopts (ex_opts\<lparr>co_Force := True\<rparr>) =
     \<lparr>rt_Update = True, rt_Merge = False, rt_Reset = True\<rparr> \<and>
   readtreeopts ex_opts = \<lparr>rt_Update = True, rt_Merge = True, rt_Reset = False\<rparr> \<and>
   workdir (snd (CheckoutCommit ex_client (ex_opts\<lparr>co_Force := True\<rparr>)
                   (Commitish_Branch ''refs/heads/old''))) ''a.txt'' =
     Some \<lparr>w_mode = ModeBlob, w_content = ''one''\<rparr> \<and>
   (\<exists>q. CheckoutCommit ex_client ex_opts (Commitish_Branch ''refs/heads/old'') =
          (Some (WorkdirDirty q), ex_client))"
proof -
  let ?T0 = "[(''a.txt'', (ModeBlob, ''two'')), (''b.txt'', (ModeBlob, ''bee''))]"
  let ?T1 = "[(''a.txt'', (ModeBlob, ''one'')), (''b.txt'', (ModeBlob, ''bee''))]"
  let ?f = "ex_opts\<lparr>co_Force := True\<rparr>"
  have h1: "co_Branch opts = [] \<or> co_ForceBranch opts \<or>
           \<not> RefSpec_File_Exists ex_client (''refs/heads/'' @ co_Branch opts)"
    if "opts = ex_opts \<or> opts = ?f" for opts
    using that by (auto simp: ex_opts_def)
  have h2: "read_ref ex_client ''HEAD'' \<noteq> None"
    by (simp add: ex_eval)
  have h3: "CommitID_of ex_client (Commitish_Branch ''refs/heads/old'') = Inr ''c1''"
    by (simp add: ex_eval)
  have h4: "commit_tree ex_client ''c1'' = Inr ?T1"
    by (simp add: ex_eval)
  have h5: "head_tree ex_client = Inr ?T0"
    by (simp add: head_tree_def ex_eval)
  have w: "walk_trees ?T0 ?T1 =
             [(''a.txt'', Some (ModeBlob, ''two''), Some (ModeBlob, ''one'')),
              (''b.txt'', Some (ModeBlob, ''bee''), Some (ModeBlob, ''bee''))]"
    by simp
  have force: "co_Force ?f" and noforce: "\<not> co_Force ex_opts"
    by (simp_all add: ex_opts_def)
  have dirty: "workdir_dirty ex_client (''a.txt'', Some (ModeBlob, ''two''), Some (ModeBlob, ''one''))"
    by (simp add: ex_client_def entry_of_def)
  show ?thesis
    using CheckoutCommit_Force_resets [OF h1 h2 h3 h4 h5, of ?f]
      CheckoutCommit_Force_resets [OF h1 h2 h3 h4 h5, of ex_opts] force noforce dirty
    by (simp add: w wfile_of_def)
qed


section \<open>Log: the walk over the parents\<close>

lemma printed_commits_append [simp]:
  "printed_commits (xs @ ys) = printed_commits xs @ printed_commits ys"
  by (induction xs rule: printed_commits.induct) simp_all

lemma printed_commits_message [simp]: "printed_commits (map OutMessageLine ls) = []"
  by (induction ls) simp_all

lemma printCommit_result:
  "printCommit c cmt out = (r, out') \<Longrightarrow>
     (case read_commit c cmt of
        Inl e \<Rightarrow> r = Panicked e \<and> out' = out
      | Inr x \<Rightarrow> r = Returned None \<and> printed_commits out' = printed_commits out @ [cmt])"
  by (auto simp: printCommit_def GetAuthor_def GetDate_def Parents_def GetCommitMessage_def Let_def
      split: sum.splits if_splits)

lemma read_commit_in_store: "read_commit c cmt = Inr x \<Longrightarrow> cmt \<in> fst ` set (objects c)"
  by (auto simp: read_commit_def split: option.splits GitObject.splits dest!: map_of_SomeD intro: rev_image_eqI)

lemma mark_commit:
  assumes "visited st cmt \<noteq> Some True"
    and "printCommit c cmt (stdout st) = (pr, out)"
  shows "marked (st\<lparr>visited := (visited st)(cmt \<mapsto> True), stdout := out\<rparr>) = insert cmt (marked st)"
    and "printed_ok st \<Longrightarrow>
           printed_ok (st\<lparr>visited := (visited st)(cmt \<mapsto> True), stdout := out\<rparr>)"
proof -
  show "marked (st\<lparr>visited := (visited st)(cmt \<mapsto> True), stdout := out\<rparr>) = insert cmt (marked st)"
    by (auto simp: marked_def)
  assume ok: "printed_ok st"
  have "cmt \<notin> marked st"
    using assms(1) by (simp add: marked_def)
  then have "cmt \<notin> set (printed_commits (stdout st))"
    using ok by (auto simp: printed_ok_def)
  then show "printed_ok (st\<lparr>visited := (visited st)(cmt \<mapsto> True), stdout := out\<rparr>)"
    using ok printCommit_result [OF assms(2)]
    by (auto simp: printed_ok_def marked_def split: sum.splits)
qed

lemma walk_invariant:
  "walkParents n c cmt st = Some (r, st') \<Longrightarrow>
     marked st \<subseteq> marked st' \<and> (printed_ok st \<longrightarrow> printed_ok st')"
  "walkParents_loop n c ps st = Some (r, st') \<Longrightarrow>
     marked st \<subseteq> marked st' \<and> (printed_ok st \<longrightarrow> printed_ok st')"
proof (induction n c cmt st and n c ps st arbitrary: r st' and r st'
    rule: walkParents_walkParents_loop.induct)
  case (1 c cmt st)
  then show ?case by simp
next
  case (2 n c cmt st)
  show ?case
  proof (cases "visited st cmt = Some True")
    case True
    then show ?thesis
      using "2.prems" by simp
  next
    case False
    obtain pr out where pc: "printCommit c cmt (stdout st) = (pr, out)"
      by (cases "printCommit c cmt (stdout st)")
    let ?st2 = "st\<lparr>visited := (visited st)(cmt \<mapsto> True), stdout := out\<rparr>"
    have m: "marked st \<subseteq> marked ?st2"
      using mark_commit(1) [OF False pc] by auto
    have ok: "printed_ok st \<longrightarrow> printed_ok ?st2"
      using mark_commit(2) [OF False pc] by simp
    show ?thesis
    proof (cases "read_commit c cmt")
      case (Inl e)
      then have "st' = ?st2"
        using "2.prems" False pc printCommit_result [OF pc] by auto
      then show ?thesis
        using m ok by simp
    next
      case (Inr x)
      then have pr: "pr = Returned None"
        using printCommit_result [OF pc] by simp
      have par: "Parents c cmt = Inr (c_parents x)"
        using Inr by (simp add: Parents_def)
      have "walkParents_loop n c (c_parents x) ?st2 = Some (r, st')"
        using "2.prems" False pc pr par by simp
      then have "marked ?st2 \<subseteq> marked st' \<and> (printed_ok ?st2 \<longrightarrow> printed_ok st')"
        using "2.IH"(1) [OF False refl _ pr par, of out] pc by simp
      then show ?thesis
        using m ok by blast
    qed
  qed
next
  case (3 n c st)
  then show ?case by simp
next
  case (4 n c p ps st)
  show ?case
  proof (cases "visited st p \<noteq> None")
    case True
    then show ?thesis
      using "4.prems" "4.IH"(1) by simp
  next
    case False
    then obtain r1 st1 where w: "walkParents n c p st = Some (r1, st1)"
      using "4.prems" by (cases "walkParents n c p st") auto
    have step: "marked st \<subseteq> marked st1 \<and> (printed_ok st \<longrightarrow> printed_ok st1)"
      using "4.IH"(2) [OF False w] .
    show ?thesis
    proof (cases "r1 = Returned None")
      case True
      then have "walkParents_loop n c ps st1 = Some (r, st')"
        using "4.prems" False w by simp
      then have "marked st1 \<subseteq> marked st' \<and> (printed_ok st1 \<longrightarrow> printed_ok st')"
        by (rule "4.IH"(3) [OF False w refl True refl])
      then show ?thesis
        using step by blast
    next
      case False
      then have "st' = st1"
        using "4.prems" \<open>\<not> visited st p \<noteq> None\<close> w
        by (auto split: outcome.splits option.splits)
      then show ?thesis
        using step by simp
    qed
  qed
qed

lemma finite_unmarked [simp]: "finite (unmarked c st)"
  by (simp add: unmarked_def)

lemma unmarked_mono: "marked st \<subseteq> marked st' \<Longrightarrow> card (unmarked c st') \<le> card (unmarked c st)"
  by (rule card_mono) (auto simp: unmarked_def)

lemma walk_terminates:
  "card (unmarked c st) < n \<Longrightarrow> walkParents n c cmt st \<noteq> None"
  "card (unmarked c st) < n \<Longrightarrow> walkParents_loop n c ps st \<noteq> None"
proof (induction n c cmt st and n c ps st rule: walkParents_walkParents_loop.induct)
  case (1 c cmt st)
  then show ?case by simp
next
  case (2 n c cmt st)
  show ?case
  proof (cases "visited st cmt = Some True")
    case True
    then show ?thesis by simp
  next
    case False
    obtain pr out where pc: "printCommit c cmt (stdout st) = (pr, out)"
      by (cases "printCommit c cmt (stdout st)")
    let ?st2 = "st\<lparr>visited := (visited st)(cmt \<mapsto> True), stdout := out\<rparr>"
    show ?thesis
    proof (cases "read_commit c cmt")
      case (Inl e)
      then show ?thesis
        using False pc printCommit_result [OF pc] by simp
    next
      case (Inr x)
      then have pr: "pr = Returned None"
        using printCommit_result [OF pc] by simp
      have par: "Parents c cmt = Inr (c_parents x)"
        using Inr by (simp add: Parents_def)
      have "cmt \<in> unmarked c st"
        using False read_commit_in_store [OF Inr] by (simp add: unmarked_def marked_def)
      moreover have "unmarked c ?st2 = unmarked c st - {cmt}"
        using mark_commit(1) [OF False pc] by (auto simp: unmarked_def)
      ultimately have "card (unmarked c ?st2) < card (unmarked c st)"
        using card_Diff1_less [of "unmarked c st" cmt] by simp
      then have "card (unmarked c ?st2) < n"
        using "2.prems" by simp
      then have "walkParents_loop n c (c_parents x) ?st2 \<noteq> None"
        using "2.IH"(1) [OF False refl _ pr par, of out] pc by simp
      then show ?thesis
        using False pc pr par by simp
    qed
  qed
next
  case (3 n c st)
  then show ?case by simp
next
  case (4 n c p ps st)
  show ?case
  proof (cases "visited st p \<noteq> None")
    case True
    then show ?thesis
      using "4.prems" "4.IH"(1) by simp
  next
    case False
    then obtain r1 st1 where w: "walkParents n c p st = Some (r1, st1)"
      using "4.prems" "4.IH"(2) by (cases "walkParents n c p st") auto
    show ?thesis
    proof (cases "r1 = Returned None")
      case True
      have "card (unmarked c st1) < n"
        using walk_invariant(1) [OF w] unmarked_mono [of st st1 c] "4.prems" by simp
      then have "walkParents_loop n c ps st1 \<noteq> None"
        by (rule "4.IH"(3) [OF False w refl True refl])
      then show ?thesis
        using False w True by simp
    next
      case False
      then show ?thesis
        using \<open>\<not> visited st p \<noteq> None\<close> w
        by (auto split: outcome.splits option.splits)
    qed
  qed
qed

lemma walk_from_Log:
  "\<exists>r st. walkParents (Suc (length (objects c))) c cmt \<lparr>visited = Map.empty, stdout = []\<rparr> = Some (r, st) \<and>
           distinct (printed_commits (stdout st))"
proof -
  let ?st0 = "\<lparr>visited = Map.empty, stdout = []\<rparr>"
  have "card (unmarked c ?st0) \<le> card (fst ` set (objects c))"
    by (rule card_mono) (auto simp: unmarked_def)
  also have "\<dots> \<le> length (objects c)"
    by (metis card_image_le card_length le_trans List.finite_set)
  finally have "walkParents (Suc (length (objects c))) c cmt ?st0 \<noteq> None"
    by (intro walk_terminates(1)) simp
  then obtain r st where w: "walkParents (Suc (length (objects c))) c cmt ?st0 = Some (r, st)"
    by auto
  have "printed_ok ?st0"
    by (simp add: printed_ok_def)
  then have "printed_ok st"
    using walk_invariant(1) [OF w] by simp
  then show ?thesis
    using w by (auto simp: printed_ok_def)
qed

lemma walkParents_loop_visited:
  "\<forall>p \<in> set ps. visited st p \<noteq> None \<Longrightarrow> walkParents_loop n c ps st = Some (Returned None, st)"
  by (induction ps) simp_all

lemma walk_linear:
  assumes "read_commit c C2 = Inr x2" and "c_parents x2 = [C1]"
    and "read_commit c C1 = Inr x1" and "set (c_parents x1) \<subseteq> {C1, C2}"
    and "C1 \<noteq> C2"
  shows "\<exists>st. walkParents (Suc (Suc (Suc n))) c C2 \<lparr>visited = Map.empty, stdout = []\<rparr> =
                 Some (Returned None, st) \<and>
              printed_commits (stdout st) = [C2, C1]"
proof -
  let ?st0 = "\<lparr>visited = Map.empty, stdout = []\<rparr>"
  obtain pr2 out2 where p2: "printCommit c C2 [] = (pr2, out2)"
    by (cases "printCommit c C2 []")
  let ?st2 = "\<lparr>visited = [C2 \<mapsto> True], stdout = out2\<rparr>"
  obtain pr1 out1 where p1: "printCommit c C1 out2 = (pr1, out1)"
    by (cases "printCommit c C1 out2")
  let ?st1 = "\<lparr>visited = [C2 \<mapsto> True, C1 \<mapsto> True], stdout = out1\<rparr>"
  have r2: "pr2 = Returned None" "printed_commits out2 = [C2]"
    using printCommit_result [OF p2] assms(1) by simp_all
  have r1: "pr1 = Returned None" "printed_commits out1 = [C2, C1]"
    using printCommit_result [OF p1] assms(3) r2 by simp_all
  have "walkParents_loop (Suc n) c (c_parents x1) ?st1 = Some (Returned None, ?st1)"
    using assms(4) by (intro walkParents_loop_visited) auto
  then have "walkParents (Suc (Suc n)) c C1 ?st2 = Some (Returned None, ?st1)"
    using assms(3,5) p1 r1 by (simp add: Parents_def)
  then have "walkParents_loop (Suc (Suc n)) c [C1] ?st2 = Some (Returned None, ?st1)"
    using assms(5) by simp
  then have "walkParents (Suc (Suc (Suc n))) c C2 ?st0 = Some (Returned None, ?st1)"
    using assms(1,2) p2 r2 by (simp add: Parents_def)
  then show ?thesis
    using r1 by simp
qed

lemma two_commits_length:
  assumes "read_commit c C2 = Inr x2" and "read_commit c C1 = Inr x1" and "C1 \<noteq> C2"
  shows "\<exists>n. length (objects c) = Suc (Suc n)"
proof -
  have "{C1, C2} \<subseteq> fst ` set (objects c)"
    using assms(1,2) by (auto dest: read_commit_in_store)
  then have "card {C1, C2} \<le> card (fst ` set (objects c))"
    by (intro card_mono) simp_all
  also have "\<dots> \<le> length (objects c)"
    by (metis card_image_le card_length le_trans List.finite_set)
  finally have "2 \<le> length (objects c)"
    using assms(3) by simp
  then show ?thesis
    by (metis Suc_le_D numeral_2_eq_2 Suc_le_mono)
qed

text \<open>
  C3. Let \<open>C2\<close> have the one parent \<open>C1\<close>, and let \<open>C1\<close> have no parent, or only parents that
  point back at \<open>C1\<close> or \<open>C2\<close>. Then \<open>Log\<close> of \<open>C2\<close> returns nil and prints \<open>C2\<close>, then \<open>C1\<close>, each
  once. In every repository and from every commit, the walk \<open>Log\<close> starts comes to an end
  within its fuel and prints no commit twice.
\<close>

theorem Log_linear_history:
  assumes "flags_Parse X args = Parsed [revision]"
    and "RevParseCommitish X c RevParseOptions revision = Inr commit"
    and "CommitID_of c commit = Inr C2"
    and "read_commit c C2 = Inr x2" and "c_parents x2 = [C1]"
    and "read_commit c C1 = Inr x1" and "set (c_parents x1) \<subseteq> {C1, C2}"
    and "C1 \<noteq> C2"
  shows "(\<exists>out. Log X c args = Some (Returned None, out) \<and> printed_commits out = [C2, C1]) \<and>
         (\<forall>c' cmt. \<exists>r st.
            walkParents (Suc (length (objects c'))) c' cmt \<lparr>visited = Map.empty, stdout = []\<rparr> =
              Some (r, st) \<and>
            distinct (printed_commits (stdout st)))"
proof
  obtain n where n: "length (objects c) = Suc (Suc n)"
    using two_commits_length [OF assms(4,6,8)] by blast
  obtain st where
    "walkParents (Suc (Suc (Suc n))) c C2 \<lparr>visited = Map.empty, stdout = []\<rparr> = Some (Returned None, st)"
    and "printed_commits (stdout st) = [C2, C1]"
    using walk_linear [OF assms(4-8)] by blast
  then show "\<exists>out. Log X c args = Some (Returned None, out) \<and> printed_commits out = [C2, C1]"
    using assms(1-3) n by (simp add: Log_def)
next
  show "\<forall>c' cmt. \<exists>r st.
          walkParents (Suc (length (objects c'))) c' cmt \<lparr>visited = Map.empty, stdout = []\<rparr> =
            Some (r, st) \<and>
          distinct (printed_commits (stdout st))"
    using walk_from_Log by blast
qed

theorem Log_linear_history_witness:
  "(\<exists>out. Log ex_collab ex_client [''refs/heads/master''] = Some (Returned None, out) \<and>
          printed_commits out = [''c2'', ''c1'']) \<and>
   (\<exists>out. Log ex_collab ex_cyclic [''refs/heads/master''] = Some (Returned None, out) \<and>
          printed_commits out = [''c2'', ''c1''])"
proof -
  let ?x1 = "\<lparr>c_tree = ''t1'', c_parents = [], c_author = ''A'', c_date = ''D1'', c_message = ''first''\<rparr>"
  let ?y1 = "\<lparr>c_tree = ''t1'', c_parents = [''c2''], c_author = ''A'', c_date = ''D1'', c_message = ''first''\<rparr>"
  let ?x2 = "\<lparr>c_tree = ''t2'', c_parents = [''c1''], c_author = ''A'', c_date = ''D2'', c_message = ''second''\<rparr>"
  have p: "flags_Parse ex_collab [''refs/heads/master''] = Parsed [''refs/heads/master'']"
    by (simp add: ex_collab_def)
  have r: "RevParseCommitish ex_collab c RevParseOptions ''refs/heads/master'' =
             Inr (Commitish_RefSpec ''refs/heads/master'')" for c
    by (simp add: ex_collab_def)
  have i: "CommitID_of ex_client (Commitish_RefSpec ''refs/heads/master'') = Inr ''c2''"
    "CommitID_of ex_cyclic (Commitish_RefSpec ''refs/heads/master'') = Inr ''c2''"
    by (simp_all add: ex_cyclic_def ex_eval)
  have c2: "read_commit ex_client ''c2'' = Inr ?x2" "read_commit ex_cyclic ''c2'' = Inr ?x2"
    by (simp_all add: ex_cyclic_def ex_eval)
  have c1: "read_commit ex_client ''c1'' = Inr ?x1" "read_commit ex_cyclic ''c1'' = Inr ?y1"
    by (simp_all add: ex_cyclic_def ex_eval)
  have p2: "c_parents ?x2 = [''c1'']"
    by simp
  have p1: "set (c_parents ?x1) \<subseteq> {''c1'', ''c2''}" "set (c_parents ?y1) \<subseteq> {''c1'', ''c2''}"
    by simp_all
  have ne: "''c1'' \<noteq> ''c2''"
    by simp
  show ?thesis
    using Log_linear_history [OF p r i(1) c2(1) p2 c1(1) p1(1) ne]
      Log_linear_history [OF p r i(2) c2(2) p2 c1(2) p1(2) ne]
    by blast
qed

section \<open>Log with path arguments\<close>

lemma walk_not_Exited:
  "walkParents n c cmt st = Some (r, st') \<Longrightarrow> r \<noteq> Exited k"
  "walkParents_loop n c ps st = Some (r, st') \<Longrightarrow> r \<noteq> Exited k"
proof (induction n c cmt st and n c ps st arbitrary: r st' and r st'
    rule: walkParents_walkParents_loop.induct)
  case (1 c cmt st)
  then show ?case by simp
next
  case (2 n c cmt st)
  show ?case
  proof (cases "visited st cmt = Some True")
    case True
    then show ?thesis
      using "2.prems" by auto
  next
    case False
    obtain pr out where pc: "printCommit c cmt (stdout st) = (pr, out)"
      by (cases "printCommit c cmt (stdout st)")
    show ?thesis
    proof (cases "read_commit c cmt")
      case (Inl e)
      then show ?thesis
        using "2.prems" False pc printCommit_result [OF pc] by auto
    next
      case (Inr x)
      then have pr: "pr = Returned None"
        using printCommit_result [OF pc] by simp
      have par: "Parents c cmt = Inr (c_parents x)"
        using Inr by (simp add: Parents_def)
      have "walkParents_loop n c (c_parents x)
              (st\<lparr>visited := (visited st)(cmt \<mapsto> True), stdout := out\<rparr>) = Some (r, st')"
        using "2.prems" False pc pr par by simp
      then show ?thesis
        using "2.IH"(1) [OF False refl _ pr par, of out] pc by simp
    qed
  qed
next
  case (3 n c st)
  then show ?case by auto
next
  case (4 n c p ps st)
  show ?case
  proof (cases "visited st p \<noteq> None")
    case True
    then show ?thesis
      using "4.prems" "4.IH"(1) by simp
  next
    case False
    then obtain r1 st1 where w: "walkParents n c p st = Some (r1, st1)"
      using "4.prems" by (cases "walkParents n c p st") auto
    show ?thesis
    proof (cases "r1 = Returned None")
      case True
      then have "walkParents_loop n c ps st1 = Some (r, st')"
        using "4.prems" False w by simp
      then show ?thesis
        by (rule "4.IH"(3) [OF False w refl True refl])
    next
      case False
      then have "r = r1"
        using "4.prems" \<open>\<not> visited st p \<noteq> None\<close> w
        by (auto split: outcome.splits option.splits)
      then show ?thesis
        using "4.IH"(2) [OF \<open>\<not> visited st p \<noteq> None\<close> w] by simp
    qed
  qed
qed

text \<open>
  C8. When the flag parser leaves two or more non-flag arguments, \<open>Log\<close> prints the
  diagnostic and the usage and exits with status 2; nothing of any commit is printed.
  With at most one non-flag argument \<open>Log\<close> does not exit: it returns or panics.
\<close>

theorem Log_rejects_paths:
  assumes "flags_Parse X args = Parsed rest"
  shows "(length rest \<ge> 2 \<longrightarrow>
            Log X c args =
              Some (Exited 2,
                    [OutDiagnostic ''Paths are not yet implemented, just the revision'', OutUsage]) \<and>
            printed_commits
              [OutDiagnostic ''Paths are not yet implemented, just the revision'', OutUsage] = []) \<and>
         (length rest \<le> 1 \<longrightarrow> (\<forall>code out. Log X c args \<noteq> Some (Exited code, out)))"
  using assms
  by (auto simp: Log_def simp del: walkParents.simps split: sum.splits if_splits
      dest: walk_not_Exited(1))

theorem Log_rejects_paths_witness:
  "Log ex_collab ex_client [''master'', ''a.txt''] =
     Some (Exited 2,
           [OutDiagnostic ''Paths are not yet implemented, just the revision'', OutUsage]) \<and>
   Log ex_collab ex_client [''refs/heads/master''] \<noteq> Some (Exited 2, [OutUsage])"
proof -
  have p: "flags_Parse ex_collab args = Parsed args" for args
    by (simp add: ex_collab_def)
  show ?thesis
    using Log_rejects_paths [OF p, of "[''master'', ''a.txt'']" ex_client]
      Log_rejects_paths [OF p, of "[''refs/heads/master'']" ex_client]
    by simp
qed

section \<open>Checkout of files\<close>

text \<open>\<open>ReadTree\<close> without \<open>Update\<close> replaces the index and leaves the working tree as it
  is.\<close>

lemma ReadTree_no_update:
  "\<not> rt_Update opt \<Longrightarrow> workdir (snd (ReadTree c opt tree)) = workdir c"
  by (auto simp: ReadTree_def Let_def split: sum.splits list.splits)

text \<open>With files named, \<open>updateAll\<close> is false: \<open>CheckoutFiles\<close> is \<open>ReadTree\<close> with
  \<open>Update\<close> and \<open>Merge\<close> false, which leaves the working tree alone, followed by
  \<open>CheckoutIndexUncommited\<close> with \<open>Force\<close> on the index read and the files named.\<close>

lemma CheckoutFiles_with_files:
  assumes "files \<noteq> []"
  shows "\<not> updateAll files"
    and "CheckoutFiles X c opts tree files =
           (case ReadTree c \<lparr>rt_Update = False, rt_Merge = False, rt_Reset = False\<rparr> tree of
              ((i, Some err), c1) \<Rightarrow> (Some err, c1)
            | ((i, None), c1) \<Rightarrow>
                CheckoutIndexUncommited X c1 i \<lparr>ci_Force = True, ci_UpdateStat = True\<rparr> files)"
    and "workdir (snd (ReadTree c \<lparr>rt_Update = False, rt_Merge = False, rt_Reset = False\<rparr> tree)) =
           workdir c"
  using assms by (simp_all add: updateAll_def CheckoutFiles_def ReadTree_no_update)

text \<open>What \<open>CheckoutFiles\<close> does to a file of the working tree is therefore what
  \<open>CheckoutIndexUncommited\<close> does to it: a file that \<open>CheckoutIndexUncommited\<close> leaves
  alone, whatever the repository and the index, \<open>CheckoutFiles\<close> leaves alone. Whether
  \<open>CheckoutIndexUncommited\<close> leaves alone the files not named is not settled by
  \<^verbatim>\<open>git/checkout.go\<close>; the one of the example repository does.\<close>

lemma CheckoutFiles_frame:
  assumes "files \<noteq> []"
    and "\<And>c1 i. workdir (snd (CheckoutIndexUncommited X c1 i
                                 \<lparr>ci_Force = True, ci_UpdateStat = True\<rparr> files)) p = workdir c1 p"
  shows "workdir (snd (CheckoutFiles X c opts tree files)) p = workdir c p"
proof -
  let ?opt = "\<lparr>rt_Update = False, rt_Merge = False, rt_Reset = False\<rparr>"
  obtain i e c1 where rt: "ReadTree c ?opt tree = ((i, e), c1)"
    by (metis prod.exhaust)
  then have "workdir c1 = workdir c"
    using CheckoutFiles_with_files(3) [OF assms(1), of c tree] by simp
  then show ?thesis
    using rt assms(2) [of c1 i] CheckoutFiles_with_files(2) [OF assms(1), of X c opts tree]
    by (cases e) simp_all
qed

lemma ex_CheckoutIndexUncommited_frame:
  "p \<notin> set files \<Longrightarrow> workdir (snd (ex_CheckoutIndexUncommited c idx opts files)) p = workdir c p"
  by (induction c idx opts files rule: ex_CheckoutIndexUncommited.induct)
    (auto split: option.splits)


section \<open>Checkout in patch mode\<close>

text \<open>
  C6. \<open>Checkout\<close> in patch mode, up to the hunk filter (the diff, the patch and its hunks
  were obtained). When the hunk filter signals user abort, \<open>Checkout\<close> returns success,
  the repository and the temporary files are as before, and no operation was done on a
  temporary file: the abort is not returned as an error. When the hunk filter returns
  the empty hunk list, the outcome depends on \<open>ioutil.TempFile\<close>. If it creates the file,
  \<open>Checkout\<close> returns success and the repository (working tree included) is as before,
  but files were written: the temporary patch file was created, written with the empty
  patch and removed again, these three operations and no other. If it fails, \<open>Checkout\<close>
  returns its error, and neither the repository nor a temporary file was touched.
\<close>

theorem Checkout_Patch_nothing_selected:
  assumes "co_Patch opts"
    and "DiffFiles c \<lparr>df_DiffCommonOptions = DiffCommonOptions_zero\<rparr> files = Inr diffs"
    and "GeneratePatch X c (DiffCommonOptions_zero\<lparr>dc_Patch := True\<rparr>) diffs = Inr patchbuf"
    and "splitPatch X patchbuf False = Inr hunks0"
  shows "(filterHunks X ''discard this hunk from the work tree'' hunks0 = Inl userAborted \<longrightarrow>
            Checkout X c tmp opts thing files = (None, c, tmp)) \<and>
         (filterHunks X ''discard this hunk from the work tree'' hunks0 = Inr [] \<longrightarrow>
            (\<forall>patch. TempFile X tmp [] ''checkoutpatch'' = Inr patch \<longrightarrow>
               Checkout X c tmp opts thing files =
                 (None, c,
                  tmp\<lparr>td_files := (td_files tmp)(patch := None),
                      td_ops := td_ops tmp @
                        [Op_TempFile patch, Op_recombinePatch patch [], Op_Remove patch]\<rparr>)) \<and>
            (\<forall>err. TempFile X tmp [] ''checkoutpatch'' = Inl err \<longrightarrow>
               Checkout X c tmp opts thing files = (Some err, c, tmp)))"
proof (intro conjI impI allI)
  assume "filterHunks X ''discard this hunk from the work tree'' hunks0 = Inl userAborted"
  then show "Checkout X c tmp opts thing files = (None, c, tmp)"
    using assms by (simp add: Checkout_def)
next
  fix patch
  assume "filterHunks X ''discard this hunk from the work tree'' hunks0 = Inr []"
    and "TempFile X tmp [] ''checkoutpatch'' = Inr patch"
  moreover have "recombine [] = []"
    by (simp add: recombine_def)
  ultimately show "Checkout X c tmp opts thing files =
      (None, c,
       tmp\<lparr>td_files := (td_files tmp)(patch := None),
           td_ops := td_ops tmp @ [Op_TempFile patch, Op_recombinePatch patch [], Op_Remove patch]\<rparr>)"
    using assms by (simp add: Checkout_def create_temp_def recombinePatch_def os_Remove_def)
next
  fix err
  assume "filterHunks X ''discard this hunk from the work tree'' hunks0 = Inr []"
    and "TempFile X tmp [] ''checkoutpatch'' = Inl err"
  then show "Checkout X c tmp opts thing files = (Some err, c, tmp)"
    using assms by (simp add: Checkout_def)
qed

text \<open>In the example repository: the user aborts; the user selects no hunk; the user
  selects no hunk and the temporary file cannot be created.\<close>

theorem Checkout_Patch_nothing_selected_witness:
  "Checkout ex_collab ex_client ex_tmp (ex_opts\<lparr>co_Patch := True\<rparr>) [] [] =
     (None, ex_client, ex_tmp) \<and>
   Checkout ex_collab_none ex_client ex_tmp (ex_opts\<lparr>co_Patch := True\<rparr>) [] [] =
     (None, ex_client,
      \<lparr>td_files = Map.empty,
       td_ops = [Op_TempFile ''/tmp/checkoutpatch'', Op_recombinePatch ''/tmp/checkoutpatch'' [],
                 Op_Remove ''/tmp/checkoutpatch'']\<rparr>) \<and>
   Checkout ex_collab_notemp ex_client ex_tmp (ex_opts\<lparr>co_Patch := True\<rparr>) [] [] =
     (Some IoError, ex_client, ex_tmp)"
proof -
  let ?opts = "ex_opts\<lparr>co_Patch := True\<rparr>"
  let ?diffs = "[\<lparr>hd_path = ''a.txt'', hd_mode_before = Some ModeBlob, hd_mode_after = Some ModeBlob,
           hd_digest_before = Some ''staged'', hd_digest_after = Some ''local'',
           hd_status = Modified\<rparr>]"
  have p: "co_Patch ?opts"
    by simp
  have d: "DiffFiles ex_client \<lparr>df_DiffCommonOptions = DiffCommonOptions_zero\<rparr> [] = Inr ?diffs"
    by (simp add: DiffFiles_def ex_eval List.map_filter_simps)
  have g: "GeneratePatch X ex_client (DiffCommonOptions_zero\<lparr>dc_Patch := True\<rparr>) ?diffs =
             Inr ''a.txt''"
    if "X = ex_collab \<or> X = ex_collab_none \<or> X = ex_collab_notemp" for X
    using that by (auto simp: ex_collab_def ex_collab_none_def ex_collab_notemp_def)
  have s: "splitPatch X ''a.txt'' False = Inr [ex_hunk]"
    if "X = ex_collab \<or> X = ex_collab_none \<or> X = ex_collab_notemp" for X
    using that by (auto simp: ex_collab_def ex_collab_none_def ex_collab_notemp_def)
  have f: "filterHunks ex_collab ''discard this hunk from the work tree'' [ex_hunk] = Inl userAborted"
    "filterHunks ex_collab_none ''discard this hunk from the work tree'' [ex_hunk] = Inr []"
    "filterHunks ex_collab_notemp ''discard this hunk from the work tree'' [ex_hunk] = Inr []"
    by (simp_all add: ex_collab_def ex_collab_none_def ex_collab_notemp_def)
  have t: "TempFile ex_collab_none ex_tmp [] ''checkoutpatch'' = Inr ''/tmp/checkoutpatch''"
    "TempFile ex_collab_notemp ex_tmp [] ''checkoutpatch'' = Inl IoError"
    by (simp_all add: ex_collab_def ex_collab_none_def ex_collab_notemp_def)
  show ?thesis
    using Checkout_Patch_nothing_selected [OF p d g s, of ex_collab ex_tmp "[]"]
      Checkout_Patch_nothing_selected [OF p d g s, of ex_collab_none ex_tmp "[]"]
      Checkout_Patch_nothing_selected [OF p d g s, of ex_collab_notemp ex_tmp "[]"]
      f t
    by (simp add: ex_tmp_def)
qed

text \<open>The hunk filter returns the empty hunk list, and \<open>Checkout\<close> returns an error (the
  temporary file cannot be created) or has written files (it can).\<close>

theorem Checkout_Patch_empty_hunks_counterexample:
  "filterHunks ex_collab_notemp ''discard this hunk from the work tree'' [ex_hunk] = Inr [] \<and>
   fst (Checkout ex_collab_notemp ex_client ex_tmp (ex_opts\<lparr>co_Patch := True\<rparr>) [] []) =
     Some IoError \<and>
   filterHunks ex_collab_none ''discard this hunk from the work tree'' [ex_hunk] = Inr [] \<and>
   td_ops (snd (snd (Checkout ex_collab_none ex_client ex_tmp (ex_opts\<lparr>co_Patch := True\<rparr>) [] []))) =
     [Op_TempFile ''/tmp/checkoutpatch'', Op_recombinePatch ''/tmp/checkoutpatch'' [],
      Op_Remove ''/tmp/checkoutpatch'']"
  by (simp add: Checkout_def DiffFiles_def ex_eval List.map_filter_simps ex_collab_def
      ex_collab_none_def ex_collab_notemp_def ex_tmp_def create_temp_def recombinePatch_def
      recombine_def os_Remove_def)

end
